theory Spec2Isabelle
  imports Complex_Main
begin


section \<open>Failures and loops\<close>

text \<open>
  Every exception the modelled Python code can raise is a value of \<open>error\<close>; a function
  that may raise returns \<open>error + 'a\<close> with \<open>Inl\<close> for the exception.
  \<^item> \<open>NoSignalsProvided\<close> is \<^verbatim>\<open>ValueError("No signals provided")\<close>;
  \<^item> \<open>DifferentLengths lengths\<close> is
    \<^verbatim>\<open>ValueError(f"Signal arrays have different lengths: {lengths}")\<close>, carrying the
    dictionary \<open>lengths\<close> that the message prints;
  \<^item> \<open>StackError\<close> is the \<^verbatim>\<open>ValueError\<close> of \<^verbatim>\<open>np.stack\<close> (no array, or arrays of
    different shapes), \<open>BroadcastError\<close> the one of an in-place addition of arrays
    whose shapes do not fit;
  \<^item> \<open>StopIteration\<close>, \<open>IndexError\<close>, \<open>ZeroDivisionError\<close> and \<open>KeyError\<close> are Python's;
  \<^item> \<open>UncheckedAccess\<close> is not an exception. It marks an array access out of range
    inside a kernel compiled by Numba: the kernels are compiled with
    \<^verbatim>\<open>@njit(cache=True)\<close>, Numba's default is not to check bounds, so nothing is raised
    there and what the compiled code does is undefined. The model stops at such an
    access with this outcome, which stands for no guarantee at all.
\<close>

datatype error =
    NoSignalsProvided
  | DifferentLengths "(string \<times> nat) list"
  | StackError
  | BroadcastError
  | StopIteration
  | IndexError
  | ZeroDivisionError
  | KeyError string
  | UncheckedAccess

definition ebind :: "error + 'a \<Rightarrow> ('a \<Rightarrow> error + 'b) \<Rightarrow> error + 'b" where
  "ebind m f = (case m of Inl e \<Rightarrow> Inl e | Inr x \<Rightarrow> f x)"

text \<open>
  \<open>efold body xs s\<close> is the loop \<^verbatim>\<open>for x in xs: s = body(x, s)\<close>, which stops at the
  first exception.
\<close>

fun efold :: "('a \<Rightarrow> 's \<Rightarrow> error + 's) \<Rightarrow> 'a list \<Rightarrow> 's \<Rightarrow> error + 's" where
  "efold body [] s = Inr s"
| "efold body (x # xs) s = (case body x s of Inl e \<Rightarrow> Inl e | Inr s' \<Rightarrow> efold body xs s')"

text \<open>
  Indexing as Python and NumPy do it: an index \<open>k\<close> with \<open>- n \<le> k < 0\<close> counts from
  the end, and an index outside \<open>- n \<le> k < n\<close> is an \<open>IndexError\<close>.
\<close>

definition norm_index :: "nat \<Rightarrow> int \<Rightarrow> error + nat" where
  "norm_index n k =
     (if 0 \<le> k \<and> k < int n then Inr (nat k)
      else if k < 0 \<and> - int n \<le> k then Inr (nat (int n + k))
      else Inl IndexError)"

definition getitem :: "'a list \<Rightarrow> int \<Rightarrow> error + 'a" where
  "getitem xs k = ebind (norm_index (length xs) k) (\<lambda>j. Inr (xs ! j))"

definition setitem :: "'a list \<Rightarrow> int \<Rightarrow> 'a \<Rightarrow> error + 'a list" where
  "setitem xs k v = ebind (norm_index (length xs) k) (\<lambda>j. Inr (xs[j := v]))"

text \<open>
  A slice \<^verbatim>\<open>xs[start:stop]\<close>: a negative bound counts from the end, and both bounds
  are then clipped to \<open>0 .. len(xs)\<close>.
\<close>

definition slice_bound :: "nat \<Rightarrow> int \<Rightarrow> nat" where
  "slice_bound n k = (let k' = (if k < 0 then k + int n else k) in nat (max 0 (min (int n) k')))"

definition py_slice :: "'a list \<Rightarrow> int \<Rightarrow> int \<Rightarrow> 'a list" where
  "py_slice xs start stop =
     (let a = slice_bound (length xs) start; b = slice_bound (length xs) stop
      in take (b - a) (drop a xs))"


section \<open>The signal combiner (src/signals/combiner.py)\<close>

datatype CombineMode = AND | OR | WEIGHTED | CONFIRM

record IndicatorSignalConfig =
  name :: string
  weight :: real
  role :: string
  signal_source :: string

record SignalCombinerConfig =
  mode :: CombineMode
  indicators :: "IndicatorSignalConfig list"
  weighted_threshold :: real
  confirm_window :: int

text \<open>
  The argument \<^verbatim>\<open>signals: dict[str, np.ndarray]\<close> is an association list in insertion
  order; \<^verbatim>\<open>signals[k]\<close> and \<^verbatim>\<open>k in signals\<close> are \<open>map_of\<close>, and
  \<^verbatim>\<open>list(signals.values())\<close> is \<open>map snd\<close>. A signal array holds integers.
\<close>

type_synonym signals = "(string \<times> int list) list"

text \<open>\<^verbatim>\<open>np.stack(arrays, axis=0)\<close>: the matrix whose rows are the arrays.\<close>

definition np_stack :: "int list list \<Rightarrow> error + int list list" where
  "np_stack arrays =
     (case arrays of
        [] \<Rightarrow> Inl StackError
      | a # rest \<Rightarrow> if list_all (\<lambda>b. length b = length a) rest then Inr arrays else Inl StackError)"

text \<open>\<^verbatim>\<open>matrix.shape[1]\<close> of a stacked matrix.\<close>

definition n_columns :: "int list list \<Rightarrow> nat" where
  "n_columns matrix = (case matrix of [] \<Rightarrow> 0 | r # _ \<Rightarrow> length r)"

definition column :: "int list list \<Rightarrow> nat \<Rightarrow> int list" where
  "column matrix j = map (\<lambda>r. r ! j) matrix"

text \<open>\<^verbatim>\<open>np.all(matrix == v, axis=0)\<close> and \<^verbatim>\<open>np.sum(matrix == v, axis=0)\<close>.\<close>

definition np_all_eq :: "int list list \<Rightarrow> int \<Rightarrow> bool list" where
  "np_all_eq matrix v = map (\<lambda>j. list_all (\<lambda>x. x = v) (column matrix j)) [0..<n_columns matrix]"

definition np_count_eq :: "int list list \<Rightarrow> int \<Rightarrow> nat list" where
  "np_count_eq matrix v = map (\<lambda>j. length (filter (\<lambda>x. x = v) (column matrix j))) [0..<n_columns matrix]"

text \<open>\<^verbatim>\<open>np.where(c, x, y)\<close> with scalar \<open>x\<close> and an array \<open>y\<close>.\<close>

definition np_where :: "bool list \<Rightarrow> int \<Rightarrow> int list \<Rightarrow> int list" where
  "np_where c x ys = map2 (\<lambda>b y. if b then x else y) c ys"

definition combine_and :: "signals \<Rightarrow> error + int list" where
  "combine_and signals =
     ebind (np_stack (map snd signals)) (\<lambda>matrix.
       let all_long = np_all_eq matrix 1;
           all_short = np_all_eq matrix (- 1)
       in Inr (np_where all_long 1 (np_where all_short (- 1) (replicate (n_columns matrix) 0))))"

text \<open>
  Boolean-mask assignment \<^verbatim>\<open>result[mask] = v\<close> with a scalar, and
  \<^verbatim>\<open>result[mask] = values\<close> with one value per selected position, in order (NumPy
  refuses a mask of another length, or a number of values other than the number of
  selected positions). \<open>compress mask xs\<close> is the selection \<^verbatim>\<open>xs[mask]\<close>.
\<close>

definition mask_fill :: "int list \<Rightarrow> bool list \<Rightarrow> int \<Rightarrow> int list" where
  "mask_fill result msk v = map2 (\<lambda>r m. if m then v else r) result msk"

fun mask_assign :: "int list \<Rightarrow> bool list \<Rightarrow> int list \<Rightarrow> error + int list" where
  "mask_assign [] [] vs = (if vs = [] then Inr [] else Inl BroadcastError)"
| "mask_assign (r # rs) (m # ms) vs =
     (if m then (case vs of
                   [] \<Rightarrow> Inl BroadcastError
                 | v # vs' \<Rightarrow> ebind (mask_assign rs ms vs') (\<lambda>t. Inr (v # t)))
      else ebind (mask_assign rs ms vs) (\<lambda>t. Inr (r # t)))"
| "mask_assign _ _ _ = Inl IndexError"

definition compress :: "bool list \<Rightarrow> 'a list \<Rightarrow> 'a list" where
  "compress msk xs = map snd (filter fst (zip msk xs))"

definition combine_or :: "signals \<Rightarrow> error + int list" where
  "combine_or signals =
     ebind (np_stack (map snd signals)) (\<lambda>matrix.
       let long_count = np_count_eq matrix 1;
           short_count = np_count_eq matrix (- 1);
           has_long = map (\<lambda>c. c > 0) long_count;
           has_short = map (\<lambda>c. c > 0) short_count;
           result0 = replicate (n_columns matrix) 0;
           result1 = mask_fill result0 (map2 (\<lambda>l s. l \<and> \<not> s) has_long has_short) 1;
           result2 = mask_fill result1 (map2 (\<lambda>s l. s \<and> \<not> l) has_short has_long) (- 1);
           conflict = map2 (\<lambda>l s. l \<and> s) has_long has_short
       in if list_ex (\<lambda>c. c) conflict
          then let vote_sum = map sum_list (compress conflict (map (column matrix) [0..<n_columns matrix]))
               in mask_assign result2 conflict (map sgn vote_sum)
          else Inr result2)"

text \<open>
  WEIGHTED mode. The weights and the threshold are \<^verbatim>\<open>float\<close>s, taken here as reals.
  \<open>add_inplace\<close> is \<^verbatim>\<open>weighted_sum += xs\<close>: the shapes must agree, or \<open>xs\<close> has one
  element, which is then added to every position.
\<close>

definition add_inplace :: "real list \<Rightarrow> real list \<Rightarrow> error + real list" where
  "add_inplace acc xs =
     (if length xs = length acc then Inr (map2 (\<lambda>a x. a + x) acc xs)
      else case xs of [x] \<Rightarrow> Inr (map (\<lambda>a. a + x) acc) | _ \<Rightarrow> Inl BroadcastError)"

definition weight_map :: "SignalCombinerConfig \<Rightarrow> string \<Rightarrow> real option" where
  "weight_map config = map_of (rev (map (\<lambda>c. (name c, weight c)) (indicators config)))"

definition combine_weighted :: "SignalCombinerConfig \<Rightarrow> signals \<Rightarrow> error + int list" where
  "combine_weighted config signals =
     (case signals of
        [] \<Rightarrow> Inl StopIteration
      | (_, first) # _ \<Rightarrow>
          ebind (efold (\<lambda>(nm, arr) (weighted_sum, total_weight).
                    let w = (case weight_map config nm of None \<Rightarrow> 1 | Some x \<Rightarrow> x)
                    in ebind (add_inplace weighted_sum (map (\<lambda>a. real_of_int a * w) arr))
                         (\<lambda>ws. Inr (ws, total_weight + w)))
                  signals (replicate (length first) 0, 0))
            (\<lambda>(weighted_sum, total_weight).
               let normalized = (if total_weight > 0 then map (\<lambda>x. x / total_weight) weighted_sum
                                 else weighted_sum);
                   threshold = weighted_threshold config
               in Inr (map (\<lambda>x. if x \<ge> threshold then 1 else if x \<le> - threshold then - 1 else 0)
                         normalized)))"

text \<open>
  CONFIRM mode. The loop body for bar \<open>i\<close>: a neutral primary bar is skipped; otherwise
  the slice \<^verbatim>\<open>sec_matrix[:, start:end]\<close> is searched for the primary's direction.
\<close>

definition confirm_step :: "int list \<Rightarrow> int list list \<Rightarrow> int \<Rightarrow> nat \<Rightarrow> nat \<Rightarrow> int list \<Rightarrow> error + int list" where
  "confirm_step primary sec_matrix window n_bars i result =
     ebind (getitem primary (int i)) (\<lambda>p.
       if p = 0 then Inr result
       else let direction = p;
                start = max 0 (int i - window);
                stop = min (int n_bars) (int i + window + 1);
                window_slice = map (\<lambda>row. py_slice row start stop) sec_matrix
            in if list_ex (list_ex (\<lambda>x. x = direction)) window_slice
               then setitem result (int i) direction
               else Inr result)"

text \<open>
  The names the configuration lists with role primary and with role secondary, in the
  configuration's order, and the arrays of the secondary names that the mapping holds.
\<close>

definition primary_names :: "SignalCombinerConfig \<Rightarrow> string list" where
  "primary_names config = map name (filter (\<lambda>c. role c = ''primary'') (indicators config))"

definition secondary_names :: "SignalCombinerConfig \<Rightarrow> string list" where
  "secondary_names config = map name (filter (\<lambda>c. role c = ''secondary'') (indicators config))"

definition sec_arrays :: "SignalCombinerConfig \<Rightarrow> signals \<Rightarrow> int list list" where
  "sec_arrays config signals = List.map_filter (map_of signals) (secondary_names config)"

definition combine_confirm :: "SignalCombinerConfig \<Rightarrow> signals \<Rightarrow> error + int list" where
  "combine_confirm config signals =
     (case primary_names config of
        [] \<Rightarrow> combine_and signals
      | primary_name # _ \<Rightarrow>
          (case map_of signals primary_name of
             None \<Rightarrow> combine_and signals
           | Some primary \<Rightarrow>
               let n_bars = length primary;
                   window = confirm_window config
               in if sec_arrays config signals = [] then Inr primary
                  else ebind (np_stack (sec_arrays config signals)) (\<lambda>sec_matrix.
                         efold (confirm_step primary sec_matrix window n_bars)
                           [0..<n_bars] (replicate n_bars 0))))"

text \<open>
  \<^verbatim>\<open>SignalCombiner.combine\<close>: the two validations, then the dispatch on the mode. The
  final \<^verbatim>\<open>else: raise ValueError("Unknown mode")\<close> of the source is unreachable for a
  \<open>CombineMode\<close>.
\<close>

definition combine :: "SignalCombinerConfig \<Rightarrow> signals \<Rightarrow> error + int list" where
  "combine config signals =
     (if signals = [] then Inl NoSignalsProvided
      else let lengths = map (\<lambda>(nm, arr). (nm, length arr)) signals;
               unique_lengths = remdups (map snd lengths)
           in if length unique_lengths > 1 then Inl (DifferentLengths lengths)
              else case mode config of
                     AND \<Rightarrow> combine_and signals
                   | OR \<Rightarrow> combine_or signals
                   | WEIGHTED \<Rightarrow> combine_weighted config signals
                   | CONFIRM \<Rightarrow> combine_confirm config signals)"


section \<open>Moving-average kernels (src/indicators/nb/ma_library_nb.py)\<close>

text \<open>
  A \<^verbatim>\<open>float64\<close> is either the missing-value sentinel \<open>NaN\<close> or a number \<open>Val r\<close>.
  Arithmetic on numbers is real arithmetic (rounding, overflow to infinity and signed
  zeros are outside the model), and \<open>NaN\<close> is absorbing. The kernels are compiled by
  Numba with its default error model, in which a division by zero raises
  \<^verbatim>\<open>ZeroDivisionError\<close>.
\<close>

datatype float64 = NaN | Val real

fun fadd :: "float64 \<Rightarrow> float64 \<Rightarrow> float64" where
  "fadd (Val a) (Val b) = Val (a + b)"
| "fadd _ _ = NaN"

fun fsub :: "float64 \<Rightarrow> float64 \<Rightarrow> float64" where
  "fsub (Val a) (Val b) = Val (a - b)"
| "fsub _ _ = NaN"

fun fmul :: "float64 \<Rightarrow> float64 \<Rightarrow> float64" where
  "fmul (Val a) (Val b) = Val (a * b)"
| "fmul _ _ = NaN"

fun fpow :: "float64 \<Rightarrow> nat \<Rightarrow> float64" where
  "fpow (Val a) k = Val (a ^ k)"
| "fpow NaN _ = NaN"

fun fdiv :: "float64 \<Rightarrow> float64 \<Rightarrow> error + float64" where
  "fdiv x (Val b) =
     (if b = 0 then Inl ZeroDivisionError
      else Inr (case x of Val a \<Rightarrow> Val (a / b) | NaN \<Rightarrow> NaN))"
| "fdiv x NaN = Inr NaN"

text \<open>Division of two parameters that are numbers.\<close>

definition rdiv :: "real \<Rightarrow> real \<Rightarrow> error + real" where
  "rdiv a b = (if b = 0 then Inl ZeroDivisionError else Inr (a / b))"

text \<open>
  Indexing inside a kernel compiled by Numba: a negative index \<open>k\<close> with \<open>- n \<le> k\<close>
  counts from the end, and an index outside \<open>- n \<le> k < n\<close> is an access that is not
  checked.
\<close>

definition nb_index :: "nat \<Rightarrow> int \<Rightarrow> error + nat" where
  "nb_index n k =
     (if 0 \<le> k \<and> k < int n then Inr (nat k)
      else if k < 0 \<and> - int n \<le> k then Inr (nat (int n + k))
      else Inl UncheckedAccess)"

definition nb_getitem :: "'a list \<Rightarrow> int \<Rightarrow> error + 'a" where
  "nb_getitem xs k = ebind (nb_index (length xs) k) (\<lambda>j. Inr (xs ! j))"

definition nb_setitem :: "'a list \<Rightarrow> int \<Rightarrow> 'a \<Rightarrow> error + 'a list" where
  "nb_setitem xs k v = ebind (nb_index (length xs) k) (\<lambda>j. Inr (xs[j := v]))"

text \<open>
  \<^verbatim>\<open>np.empty(n, dtype=np.float64)\<close>: an array of \<open>n\<close> slots whose contents NumPy leaves
  unspecified. The model fills it with 0.0; each kernel below writes a slot before it
  reads it.
\<close>

definition np_empty :: "nat \<Rightarrow> float64 list" where
  "np_empty n = replicate n (Val 0)"

subsection \<open>\<^verbatim>\<open>sma_1d_nb\<close>\<close>



subsection \<open>\<^verbatim>\<open>ema_1d_nb\<close>\<close>

definition ema_step :: "float64 list \<Rightarrow> real \<Rightarrow> nat \<Rightarrow> float64 list \<Rightarrow> error + float64 list" where
  "ema_step src alpha i out =
     ebind (nb_getitem src (int i)) (\<lambda>x.
     ebind (nb_getitem out (int i - 1)) (\<lambda>prev.
     nb_setitem out (int i) (fadd (fmul (Val alpha) x) (fmul (Val (1 - alpha)) prev))))"

definition ema_1d_nb :: "float64 list \<Rightarrow> int \<Rightarrow> error + float64 list" where
  "ema_1d_nb src window =
     (let n = length src
      in ebind (rdiv 2 (real_of_int window + 1)) (\<lambda>alpha.
         ebind (nb_getitem src 0) (\<lambda>x0.
         ebind (nb_setitem (np_empty n) 0 x0) (\<lambda>out0.
         efold (ema_step src alpha) [1..<n] out0))))"

subsection \<open>\<^verbatim>\<open>wma_1d_nb\<close>\<close>




subsection \<open>\<^verbatim>\<open>dema_1d_nb\<close>\<close>

definition dema_step :: "float64 list \<Rightarrow> float64 list \<Rightarrow> nat \<Rightarrow> float64 list \<Rightarrow> error + float64 list" where
  "dema_step e1 e2 i out =
     ebind (nb_getitem e1 (int i)) (\<lambda>a.
     ebind (nb_getitem e2 (int i)) (\<lambda>b.
     nb_setitem out (int i) (fsub (fmul (Val 2) a) b)))"

definition dema_1d_nb :: "float64 list \<Rightarrow> int \<Rightarrow> error + float64 list" where
  "dema_1d_nb src window =
     ebind (ema_1d_nb src window) (\<lambda>e1.
     ebind (ema_1d_nb e1 window) (\<lambda>e2.
     let n = length src
     in efold (dema_step e1 e2) [0..<n] (np_empty n)))"

subsection \<open>\<^verbatim>\<open>mcginley_1d_nb\<close>\<close>

definition mcginley_step :: "float64 list \<Rightarrow> int \<Rightarrow> nat \<Rightarrow> float64 list \<Rightarrow> error + float64 list" where
  "mcginley_step src window i out =
     ebind (nb_getitem out (int i - 1)) (\<lambda>prev.
       if prev = Val 0 then ebind (nb_getitem src (int i)) (\<lambda>x. nb_setitem out (int i) x)
       else ebind (nb_getitem src (int i)) (\<lambda>x.
            ebind (fdiv x prev) (\<lambda>ratio.
            ebind (fdiv (fsub x prev) (fmul (Val (real_of_int window)) (fpow ratio 4))) (\<lambda>d.
            nb_setitem out (int i) (fadd prev d)))))"

definition mcginley_1d_nb :: "float64 list \<Rightarrow> int \<Rightarrow> error + float64 list" where
  "mcginley_1d_nb src window =
     (let n = length src
      in ebind (nb_getitem src 0) (\<lambda>x0.
         ebind (nb_setitem (np_empty n) 0 x0) (\<lambda>out0.
         efold (mcginley_step src window) [1..<n] out0)))"


section \<open>The Sniper controller (src/controllers/sniper_controller.py)\<close>

text \<open>
  \<^verbatim>\<open>MA_TYPE_NAMES\<close> of ma_library_nb.py: a dictionary from the name of a moving-average
  type to its integer code, in the order of the source.
\<close>

definition MA_TYPE_NAMES :: "(string \<times> int) list" where
  "MA_TYPE_NAMES =
     [(''Simple Moving Average'', 0),
      (''Exponential Moving Average'', 1),
      (''Weighted Moving Average'', 2),
      (''Relative Moving Average'', 3),
      (''Smoothed Moving Average'', 3),
      (''Double Exponential Moving Average'', 4),
      (''Triple Exponential Moving Average'', 5),
      (''Hull Moving Average'', 6),
      (''Arnaud Legoux Moving Average'', 7),
      (''Jurik Moving Average'', 8),
      (''Kaufman's Adaptive Moving Average'', 9),
      (''Fractal Adaptive Moving Average'', 10),
      (''Volatility Adjusted Moving Average'', 11),
      (''Tilson T3 Moving Average'', 12),
      (''Tilson T3(early version) Moving Average'', 13),
      (''Zero-Lag Exponential Moving Average'', 14),
      (''McGinley'', 15),
      (''Modular Filter'', 16),
      (''Coefficient of Variation Weighted Moving Average'', 17),
      (''Ehlers Dynamic Smoothed Moving Average'', 18),
      (''Ehlers EMA Smoother'', 20),
      (''Ahrens Moving Average'', 21),
      (''Alexander Moving Average'', 22),
      (''Average Directional Volatility Moving Average'', 23),
      (''Integral of Linear Regression Slope'', 24),
      (''Leader Exponential Moving Average'', 25),
      (''Recursive Moving Trendline'', 26),
      (''Simple Decycler'', 27),
      (''Triangular Moving Average'', 28),
      (''Exponential Moving Average Optimized'', 29),
      (''Donchian'', 30),
      (''Donchian v2'', 31),
      (''Volume Weighted Moving Average'', 32),
      (''Least Squares Moving Average'', 33),
      (''Ehlers Super Smoother'', 19)]"

text \<open>
  A Python value that is an \<^verbatim>\<open>int\<close> or a \<^verbatim>\<open>str\<close>. Python's \<^verbatim>\<open>==\<close> between an
  \<^verbatim>\<open>int\<close> and a \<^verbatim>\<open>str\<close> is \<^verbatim>\<open>False\<close>, as is the equality of \<open>PyInt n\<close> and \<open>PyStr s\<close>.
\<close>

datatype pyval = PyInt int | PyStr string

record SniperControllerConfig =
  controller_type :: string
  connector_name :: string
  trading_pair :: string
  total_amount_quote :: rat
  max_executors_per_side :: int
  cooldown_time :: int
  leverage :: int
  stop_loss :: rat
  take_profit :: rat
  time_limit :: int
  candles_max :: int
  timeframe :: string
  length_cfg :: int
  ma_type :: string
  overbought_oversold :: real
  trail_threshold :: real
  dmi_len :: int
  adx_threshold :: real

text \<open>
  The loop of \<^verbatim>\<open>compute_signal\<close> that resolves the configured name:
  \<^verbatim>\<open>for idx, name in MA_TYPE_NAMES.items(): if name == cfg.ma_type: ma_type_idx = idx; break\<close>.
  \<^verbatim>\<open>items()\<close> yields (key, value) pairs, so the variable \<open>idx\<close> is bound to the name (a
  \<^verbatim>\<open>str\<close>) and the variable \<open>name\<close> to the code (an \<^verbatim>\<open>int\<close>); \<^verbatim>\<open>cfg.ma_type\<close> is a
  \<^verbatim>\<open>str\<close>.
\<close>

fun resolve_loop :: "(string \<times> int) list \<Rightarrow> string \<Rightarrow> pyval \<Rightarrow> pyval" where
  "resolve_loop [] cfg_ma_type ma_type_idx = ma_type_idx"
| "resolve_loop (item # rest) cfg_ma_type ma_type_idx =
     (\<lambda>(idx, name).
        if PyInt name = PyStr cfg_ma_type then PyStr idx
        else resolve_loop rest cfg_ma_type ma_type_idx) item"

definition resolve_ma_type_idx :: "string \<Rightarrow> pyval" where
  "resolve_ma_type_idx cfg_ma_type = resolve_loop MA_TYPE_NAMES cfg_ma_type (PyInt 0)"

text \<open>
  The frame \<open>df\<close> maps a column name to its values. A column is read under its lower-case
  name if the frame has it, else under its capitalised name, which raises
  \<^verbatim>\<open>KeyError\<close> if it is missing too.
\<close>

type_synonym dataframe = "(string \<times> float64 list) list"

definition df_column :: "dataframe \<Rightarrow> string \<Rightarrow> string \<Rightarrow> error + float64 list" where
  "df_column df lower upper =
     (case map_of df lower of
        Some v \<Rightarrow> Inr v
      | None \<Rightarrow> (case map_of df upper of Some v \<Rightarrow> Inr v | None \<Rightarrow> Inl (KeyError upper)))"

text \<open>
  \<^verbatim>\<open>SniperProX.run\<close> is built by the indicator factory of the external library
  vectorbtpro; it is a parameter \<open>run\<close> of the model, a function of its arguments
  (close, high, low, volume, length, ma_type, overbought_oversold, trail_threshold,
  dmi_len, adx_thresh) that returns the output series or raises. Of the outputs
  \<^verbatim>\<open>compute_signal\<close> reads \<open>major_buy\<close> and \<open>major_sell\<close>.
\<close>

record sniper_result =
  major_buy :: "float64 list"
  major_sell :: "float64 list"

type_synonym sniper_run =
  "float64 list \<Rightarrow> float64 list \<Rightarrow> float64 list \<Rightarrow> float64 list \<Rightarrow> int \<Rightarrow> pyval \<Rightarrow>
   real \<Rightarrow> real \<Rightarrow> int \<Rightarrow> real \<Rightarrow> error + sniper_result"

definition isnan :: "float64 \<Rightarrow> bool" where
  "isnan x = (x = NaN)"

text \<open>\<^verbatim>\<open>len(xs) > 0 and not np.isnan(xs[-1])\<close>, with the short-circuit of \<^verbatim>\<open>and\<close>.\<close>

definition latest_present :: "float64 list \<Rightarrow> error + bool" where
  "latest_present xs =
     (if length xs > 0 then ebind (getitem xs (- 1)) (\<lambda>v. Inr (\<not> isnan v)) else Inr False)"

definition compute_signal :: "sniper_run \<Rightarrow> SniperControllerConfig \<Rightarrow> dataframe \<Rightarrow> error + int" where
  "compute_signal run cfg df =
     ebind (df_column df ''close'' ''Close'') (\<lambda>close.
     ebind (df_column df ''high'' ''High'') (\<lambda>high.
     ebind (df_column df ''low'' ''Low'') (\<lambda>low.
     ebind (df_column df ''volume'' ''Volume'') (\<lambda>volume.
     let ma_type_idx = resolve_ma_type_idx (ma_type cfg)
     in ebind (run close high low volume (length_cfg cfg) ma_type_idx (overbought_oversold cfg)
                 (trail_threshold cfg) (dmi_len cfg) (adx_threshold cfg)) (\<lambda>result.
        ebind (latest_present (major_buy result)) (\<lambda>buy.
          if buy then Inr 1
          else ebind (latest_present (major_sell result)) (\<lambda>sell.
                 if sell then Inr (- 1) else Inr 0)))))))"

text \<open>
  The configuration the repository's tests build (tests/test_controllers.py): the three
  required fields of the test helper, the class defaults elsewhere.
\<close>

definition sniper_test_config :: SniperControllerConfig where
  "sniper_test_config =
     \<lparr>controller_type = ''vbt_sniper'', connector_name = ''binance_perpetual'',
      trading_pair = ''BTC-USDT'', total_amount_quote = 500, max_executors_per_side = 1,
      cooldown_time = 300, leverage = 1, stop_loss = 3 / 100, take_profit = 2 / 100,
      time_limit = 2700, candles_max = 300, timeframe = ''1h'', length_cfg = 28,
      ma_type = ''Jurik Moving Average'', overbought_oversold = 1386 / 1000,
      trail_threshold = 986 / 1000, dmi_len = 14, adx_threshold = 20\<rparr>"

subsection \<open>The controller base class (src/controllers/base_vbt_controller.py)\<close>

text \<open>
  The state of a controller: \<^verbatim>\<open>self._current_signal\<close>, which the constructor sets to 0,
  and the entry \<^verbatim>\<open>self.processed_data["signal"]\<close>, absent until the first update.
\<close>

record controller_state =
  current_signal :: int
  processed_signal :: "int option"

definition initial_state :: controller_state where
  "initial_state = \<lparr>current_signal = 0, processed_signal = None\<rparr>"

definition get_signal :: "controller_state \<Rightarrow> int" where
  "get_signal st = current_signal st"

text \<open>
  \<^verbatim>\<open>df.empty\<close>: a frame is empty if it has no column or no row. The columns of a frame
  have one common length, the number of rows.
\<close>

definition df_empty :: "dataframe \<Rightarrow> bool" where
  "df_empty df = (case df of [] \<Rightarrow> True | (_, col) # _ \<Rightarrow> col = [])"

text \<open>
  \<^verbatim>\<open>update_processed_data\<close>. The argument \<open>provider_frame\<close> is \<open>None\<close> for a controller
  without a market data provider, where the source takes the empty frame
  \<^verbatim>\<open>pd.DataFrame()\<close>, and otherwise the frame made of the provider's candles. On a
  frame that is not empty the signal is recomputed inside
  \<^verbatim>\<open>try: ... except Exception\<close>, which turns every exception into the signal 0; an
  unchecked access is no exception and is not caught.
\<close>

definition update_processed_data ::
  "sniper_run \<Rightarrow> SniperControllerConfig \<Rightarrow> dataframe option \<Rightarrow> controller_state \<Rightarrow>
   error + controller_state" where
  "update_processed_data run cfg provider_frame st =
     (let df = (case provider_frame of None \<Rightarrow> [] | Some frame \<Rightarrow> frame)
      in ebind (if \<not> df_empty df
                then (case compute_signal run cfg df of
                        Inr s \<Rightarrow> Inr (st\<lparr>current_signal := s\<rparr>)
                      | Inl e \<Rightarrow> if e = UncheckedAccess then Inl e
                                 else Inr (st\<lparr>current_signal := 0\<rparr>))
                else Inr st)
           (\<lambda>st'. Inr (st'\<lparr>processed_signal := Some (current_signal st')\<rparr>)))"


section \<open>The Goertzel estimator (src/indicators/nb/spectral_nb.py)\<close>

text \<open>
  For this kernel the source samples and the parameters \<open>cycle_len\<close> and \<open>scale_factor\<close>
  are finite \<^verbatim>\<open>float64\<close> numbers, taken as reals with real arithmetic; a division
  raises \<^verbatim>\<open>ZeroDivisionError\<close> on a zero divisor and array accesses are unchecked, as in
  the kernels above.
  \<open>goertzel_bar\<close> is the body of the loop over the bars, for bar \<open>i\<close>; the local variable
  \<^verbatim>\<open>length\<close> of the source is \<open>len\<close>, and \<^verbatim>\<open>real\<close>, \<^verbatim>\<open>imag\<close> are \<open>re\<close>, \<open>im\<close>.
  The state of the recurrence loop is \<open>(q0, q1, q2)\<close>. (\<^verbatim>\<open>np.sqrt\<close> is applied to sums of
  squares only.)
\<close>

definition goertzel_bar :: "real list \<Rightarrow> int \<Rightarrow> real \<Rightarrow> real \<Rightarrow> nat \<Rightarrow> error + real" where
  "goertzel_bar src window_size cycle_len scale_factor i =
     (let len = min (int i + 1) window_size
      in if len < 2 then Inr 0
         else
           ebind (rdiv (real_of_int len) cycle_len) (\<lambda>k.
           ebind (rdiv (2 * pi * k) (real_of_int len)) (\<lambda>omega.
           let sine = sin omega; cosine = cos omega; coeff = 2 * cosine
           in
           ebind (efold (\<lambda>j (q0, q1, q2).
                     ebind (nb_getitem src (int i - len + 1 + int j)) (\<lambda>val.
                       let q0' = coeff * q1 - q2 + val in Inr (q0', q0', q1)))
                    [0..<nat len] (0, 0, 0)) (\<lambda>(q0, q1, q2).
           ebind (rdiv (cosine * q1 - q2) (real_of_int len)) (\<lambda>re_half.
           ebind (rdiv (sine * q1) (real_of_int len)) (\<lambda>im_half.
           let re = re_half * 2; im = im_half * 2
           in
           ebind (efold (\<lambda>j mean. ebind (nb_getitem src (int i - int j)) (\<lambda>x. Inr (mean + x)))
                    [0..<nat len] 0) (\<lambda>mean_sum.
           ebind (rdiv mean_sum (real_of_int len)) (\<lambda>mean.
           ebind (efold (\<lambda>j var. ebind (nb_getitem src (int i - int j)) (\<lambda>x. Inr (var + (x - mean) ^ 2)))
                    [0..<nat len] 0) (\<lambda>var.
           ebind (rdiv var (real_of_int len)) (\<lambda>mean_sq.
           let normalizer = sqrt mean_sq;
               amp = sqrt (re * re + im * im) * normalizer
           in
           ebind (rdiv amp scale_factor) (\<lambda>final_amp.
           ebind (rdiv (pi * 2 * real i) cycle_len) (\<lambda>phase.
           Inr (final_amp * sin phase)))))))))))))"

definition goertzel_1d_nb :: "real list \<Rightarrow> int \<Rightarrow> real \<Rightarrow> real \<Rightarrow> error + real list" where
  "goertzel_1d_nb src window_size cycle_len scale_factor =
     (let n = length src
      in efold (\<lambda>i out. ebind (goertzel_bar src window_size cycle_len scale_factor i)
                            (\<lambda>v. nb_setitem out (int i) v))
           [0..<n] (replicate n 0))"

subsection \<open>The terms of the specification's description of the estimator\<close>

text \<open>
  These definitions follow the words of the specification, to state what the kernel is
  compared with: the window of bar \<open>i\<close> (its last \<open>min(i+1, window_size)\<close> samples), the
  magnitude of the Goertzel DFT of a window at the frequency of a cycle period, and the
  two standard deviations of a window: the population one divides the sum of squared
  deviations by the number \<open>N\<close> of samples, the sample one by \<open>N - 1\<close>.
\<close>

definition window_of_bar :: "real list \<Rightarrow> int \<Rightarrow> nat \<Rightarrow> real list" where
  "window_of_bar src window_size i =
     (let len = nat (min (int i + 1) window_size) in take len (drop (i + 1 - len) src))"

definition goertzel_recurrence :: "real \<Rightarrow> real list \<Rightarrow> real \<times> real" where
  "goertzel_recurrence coeff xs = fold (\<lambda>x (q1, q2). (coeff * q1 - q2 + x, q1)) xs (0, 0)"

definition goertzel_magnitude :: "real list \<Rightarrow> real \<Rightarrow> real" where
  "goertzel_magnitude xs period =
     (let omega = 2 * pi / period;
          (q1, q2) = goertzel_recurrence (2 * cos omega) xs;
          re = (cos omega * q1 - q2) / real (length xs) * 2;
          im = (sin omega * q1) / real (length xs) * 2
      in sqrt (re * re + im * im))"

definition mean_of :: "real list \<Rightarrow> real" where
  "mean_of xs = sum_list xs / real (length xs)"

definition population_std :: "real list \<Rightarrow> real" where
  "population_std xs = sqrt ((\<Sum>x \<leftarrow> xs. (x - mean_of xs) ^ 2) / real (length xs))"

definition sample_std :: "real list \<Rightarrow> real" where
  "sample_std xs = sqrt ((\<Sum>x \<leftarrow> xs. (x - mean_of xs) ^ 2) / (real (length xs) - 1))"


section \<open>Lemmas about failures and loops\<close>

lemma ebind_Inr [simp]: "ebind (Inr x) f = f x" by (simp add: ebind_def)
lemma ebind_Inl [simp]: "ebind (Inl e) f = Inl e" by (simp add: ebind_def)

lemma efold_append: "efold f (xs @ ys) s = ebind (efold f xs s) (efold f ys)"
  by (induction xs arbitrary: s) (auto split: sum.splits)


section \<open>The signal combiner: AND and OR modes, validation\<close>

lemma np_stack_same:
  assumes "arrays \<noteq> []" and "\<forall>a \<in> set arrays. length a = n"
  shows "np_stack arrays = Inr arrays" and "n_columns arrays = n"
  using assms by (auto simp: np_stack_def n_columns_def list_all_iff split: list.splits)

lemma unique_lengths_le1:
  assumes "\<forall>x \<in> set xs. x = (n::nat)"
  shows "\<not> length (remdups xs) > 1"
proof -
  have "set xs \<subseteq> {n}" using assms by auto
  then have "card (set xs) \<le> card {n}" by (intro card_mono) auto
  then show ?thesis by (simp add: length_remdups_card_conv)
qed

lemma combine_valid:
  assumes "signals \<noteq> []" and "\<forall>arr \<in> snd ` set signals. length arr = n"
  shows "combine config signals =
           (case mode config of AND \<Rightarrow> combine_and signals | OR \<Rightarrow> combine_or signals
            | WEIGHTED \<Rightarrow> combine_weighted config signals | CONFIRM \<Rightarrow> combine_confirm config signals)"
proof -
  have "\<forall>x \<in> set (map snd (map (\<lambda>(nm, arr). (nm, length arr)) signals)). x = n"
    using assms(2) by auto
  from unique_lengths_le1[OF this] show ?thesis
    using assms(1) by (simp add: combine_def Let_def)
qed

lemma combine_and_eq:
  assumes "signals \<noteq> []" and "\<forall>arr \<in> snd ` set signals. length arr = n"
  shows "combine_and signals =
           Inr (map (\<lambda>j. if (\<forall>arr \<in> snd ` set signals. arr ! j = 1) then 1
                          else if (\<forall>arr \<in> snd ` set signals. arr ! j = - 1) then - 1 else 0) [0..<n])"
proof -
  have st: "np_stack (map snd signals) = Inr (map snd signals)" "n_columns (map snd signals) = n"
    using np_stack_same[of "map snd signals" n] assms by auto
  show ?thesis
    unfolding combine_and_def st ebind_Inr Let_def np_where_def np_all_eq_def column_def
    by (intro arg_cong[where f=Inr] nth_equalityI) (auto simp: list_all_iff)
qed

text \<open>
  Claim C1. For a non-empty mapping of signal arrays that all have length \<open>n\<close>, the
  combiner in AND mode returns an array of length \<open>n\<close> that holds, at each bar, 1
  exactly when every input is 1 there, -1 exactly when every input is -1 there, and 0 in
  every other case. (The inputs need not even be restricted to -1, 0, 1.)
\<close>

theorem combine_and_mode:
  assumes "mode config = AND" and "signals \<noteq> []"
    and "\<forall>arr \<in> snd ` set signals. length arr = n"
  shows "\<exists>out. combine config signals = Inr out \<and> length out = n \<and>
           (\<forall>i<n. (out ! i = 1 \<longleftrightarrow> (\<forall>arr \<in> snd ` set signals. arr ! i = 1)) \<and>
                   (out ! i = - 1 \<longleftrightarrow> (\<forall>arr \<in> snd ` set signals. arr ! i = - 1)) \<and>
                   (out ! i = 0 \<longleftrightarrow> \<not> (\<forall>arr \<in> snd ` set signals. arr ! i = 1) \<and>
                                     \<not> (\<forall>arr \<in> snd ` set signals. arr ! i = - 1)))"
proof -
  obtain a where a: "a \<in> snd ` set signals" using assms(2) by (cases signals) auto
  have "combine config signals = combine_and signals"
    using combine_valid[OF assms(2,3)] assms(1) by simp
  with combine_and_eq[OF assms(2,3)] a show ?thesis
    by (auto simp del: image_iff)
qed


lemma list5_eqI:
  assumes "length xs = 5" "xs ! 0 = a" "xs ! 1 = b" "xs ! 2 = c" "xs ! 3 = d" "xs ! 4 = e"
  shows "xs = [a, b, c, d, e]"
proof (rule nth_equalityI)
  show "length xs = length [a, b, c, d, e]" using assms(1) by simp
next
  fix i assume "i < length xs"
  then have "i = 0 \<or> i = 1 \<or> i = 2 \<or> i = 3 \<or> i = 4" using assms(1) by auto
  then show "xs ! i = [a, b, c, d, e] ! i" using assms by auto
qed

lemma list4_eqI:
  assumes "length xs = 4" "xs ! 0 = a" "xs ! 1 = b" "xs ! 2 = c" "xs ! 3 = d"
  shows "xs = [a, b, c, d]"
proof (rule nth_equalityI)
  show "length xs = length [a, b, c, d]" using assms(1) by simp
next
  fix i assume "i < length xs"
  then have "i = 0 \<or> i = 1 \<or> i = 2 \<or> i = 3" using assms(1) by auto
  then show "xs ! i = [a, b, c, d] ! i" using assms by auto
qed

text \<open>The spec's example: \<open>a = [1,1,-1,0,1]\<close>, \<open>b = [1,-1,-1,0,1]\<close> give \<open>[1,0,-1,0,1]\<close>.\<close>

theorem combine_and_mode_witness:
  "combine \<lparr>mode = AND, indicators = [], weighted_threshold = 1/2, confirm_window = 3\<rparr>
     [(''a'', [1, 1, - 1, 0, 1]), (''b'', [1, - 1, - 1, 0, 1])] = Inr [1, 0, - 1, 0, 1]"
proof -
  let ?cfg = "\<lparr>mode = AND, indicators = [], weighted_threshold = 1/2, confirm_window = 3\<rparr>"
  let ?ex = "[(''a'', [1, 1, - 1, 0, 1]), (''b'', [1, - 1, - 1, 0, 1::int])]"
  have "mode ?cfg = AND" "?ex \<noteq> []" "\<forall>arr \<in> snd ` set ?ex. length arr = 5" by simp_all
  from combine_and_mode[OF this] obtain out where o: "combine ?cfg ?ex = Inr out" "length out = 5"
    and p: "\<And>i. i < 5 \<Longrightarrow> (out ! i = 1 \<longleftrightarrow> (\<forall>arr \<in> snd ` set ?ex. arr ! i = 1)) \<and>
                   (out ! i = - 1 \<longleftrightarrow> (\<forall>arr \<in> snd ` set ?ex. arr ! i = - 1)) \<and>
                   (out ! i = 0 \<longleftrightarrow> \<not> (\<forall>arr \<in> snd ` set ?ex. arr ! i = 1) \<and>
                                     \<not> (\<forall>arr \<in> snd ` set ?ex. arr ! i = - 1))"
    by blast
  have "out ! 0 = 1" "out ! 1 = 0" "out ! 2 = - 1" "out ! 3 = 0" "out ! 4 = 1"
    using p[of 0] p[of 1] p[of 2] p[of 3] p[of 4] by simp_all
  with o show ?thesis by (simp add: list5_eqI)
qed

lemma mask_assign_map:
  assumes "length rs = length ms" and "length xs = length ms"
  shows "mask_assign rs ms (map f (compress ms xs)) =
           Inr (map (\<lambda>(r, m, x). if m then f x else r) (zip rs (zip ms xs)))"
  using assms
proof (induction rs ms arbitrary: xs rule: list_induct2)
  case Nil
  then show ?case by (simp add: compress_def)
next
  case (Cons r rs m ms)
  then obtain x xs' where xs: "xs = x # xs'" by (cases xs) auto
  with Cons.prems have l: "length xs' = length ms" by simp
  from Cons.IH[OF l] show ?case
    unfolding xs by (simp add: compress_def)
qed

lemma combine_or_eq:
  assumes "signals \<noteq> []" and "\<forall>arr \<in> snd ` set signals. length arr = n"
  shows "combine_or signals =
           Inr (map (\<lambda>j. let c = column (map snd signals) j
                          in if 1 \<in> set c \<and> - 1 \<notin> set c then 1
                             else if - 1 \<in> set c \<and> 1 \<notin> set c then - 1
                             else if 1 \<in> set c \<and> - 1 \<in> set c then sgn (sum_list c)
                             else 0) [0..<n])"
proof -
  let ?M = "map snd signals"
  let ?cols = "map (column ?M) [0..<n]"
  have st: "np_stack ?M = Inr ?M" "n_columns ?M = n"
    using np_stack_same[of ?M n] assms by auto
  define has_long where "has_long = map (\<lambda>c. c > 0) (np_count_eq ?M 1)"
  define has_short where "has_short = map (\<lambda>c. c > 0) (np_count_eq ?M (- 1))"
  define conflict where "conflict = map2 (\<lambda>l s. l \<and> s) has_long has_short"
  define result2 where "result2 =
    mask_fill (mask_fill (replicate n 0) (map2 (\<lambda>l s. l \<and> \<not> s) has_long has_short) 1)
      (map2 (\<lambda>s l. s \<and> \<not> l) has_short has_long) (- 1)"
  have hl: "length has_long = n" "\<And>j. j < n \<Longrightarrow> has_long ! j \<longleftrightarrow> 1 \<in> set (column ?M j)"
    by (simp_all add: has_long_def np_count_eq_def st filter_empty_conv)
  have hs: "length has_short = n" "\<And>j. j < n \<Longrightarrow> has_short ! j \<longleftrightarrow> - 1 \<in> set (column ?M j)"
    by (simp_all add: has_short_def np_count_eq_def st filter_empty_conv)
  have cf: "length conflict = n"
    "\<And>j. j < n \<Longrightarrow> conflict ! j \<longleftrightarrow> 1 \<in> set (column ?M j) \<and> - 1 \<in> set (column ?M j)"
    by (simp_all add: conflict_def hl hs)
  have r2: "length result2 = n"
    "\<And>j. j < n \<Longrightarrow> result2 ! j =
        (if - 1 \<in> set (column ?M j) \<and> 1 \<notin> set (column ?M j) then - 1
         else if 1 \<in> set (column ?M j) \<and> - 1 \<notin> set (column ?M j) then 1 else 0)"
    by (simp_all add: result2_def mask_fill_def hl hs)
  have unf: "combine_or signals =
      (if list_ex (\<lambda>c. c) conflict
       then mask_assign result2 conflict (map (sgn \<circ> sum_list) (compress conflict ?cols))
       else Inr result2)"
    by (simp add: combine_or_def st Let_def has_long_def has_short_def conflict_def result2_def)
  show ?thesis
  proof (cases "list_ex (\<lambda>c. c) conflict")
    case True
    have "mask_assign result2 conflict (map (sgn \<circ> sum_list) (compress conflict ?cols)) =
            Inr (map (\<lambda>(r, m, x). if m then (sgn \<circ> sum_list) x else r) (zip result2 (zip conflict ?cols)))"
      by (rule mask_assign_map) (simp_all add: r2 cf)
    also have "map (\<lambda>(r, m, x). if m then (sgn \<circ> sum_list) x else r) (zip result2 (zip conflict ?cols)) =
                 map (\<lambda>j. let c = column ?M j
                          in if 1 \<in> set c \<and> - 1 \<notin> set c then 1
                             else if - 1 \<in> set c \<and> 1 \<notin> set c then - 1
                             else if 1 \<in> set c \<and> - 1 \<in> set c then sgn (sum_list c)
                             else 0) [0..<n]"
      by (rule nth_equalityI) (auto simp: r2 cf Let_def)
    finally have X: "mask_assign result2 conflict (map (sgn \<circ> sum_list) (compress conflict ?cols)) =
        Inr (map (\<lambda>j. let c = column ?M j
                          in if 1 \<in> set c \<and> - 1 \<notin> set c then 1
                             else if - 1 \<in> set c \<and> 1 \<notin> set c then - 1
                             else if 1 \<in> set c \<and> - 1 \<in> set c then sgn (sum_list c)
                             else 0) [0..<n])" .
    show ?thesis unfolding unf if_P[OF True] by (rule X)
  next
    case False
    then have nc: "\<And>j. j < n \<Longrightarrow> \<not> conflict ! j"
      using cf(1) by (auto simp: list_ex_iff in_set_conv_nth)
    have "result2 = map (\<lambda>j. let c = column ?M j
                          in if 1 \<in> set c \<and> - 1 \<notin> set c then 1
                             else if - 1 \<in> set c \<and> 1 \<notin> set c then - 1
                             else if 1 \<in> set c \<and> - 1 \<in> set c then sgn (sum_list c)
                             else 0) [0..<n]"
      using nc by (intro nth_equalityI) (auto simp: r2 cf Let_def)
    then show ?thesis using False unf by simp
  qed
qed

text \<open>
  Claim C2. For a non-empty mapping of signal arrays that all have length \<open>n\<close>, the
  combiner in OR mode returns an array of length \<open>n\<close> that holds, at each bar, 1 if
  some input is 1 and none is -1; -1 if some input is -1 and none is 1; the sign of the sum
  of all inputs at that bar if both a 1 and a -1 are present (so a tie gives 0); and 0 if
  every input is 0 there.
\<close>

theorem combine_or_mode:
  assumes "mode config = OR" and "signals \<noteq> []"
    and "\<forall>arr \<in> snd ` set signals. length arr = n"
  shows "\<exists>out. combine config signals = Inr out \<and> length out = n \<and>
           (\<forall>i<n.
              ((\<exists>arr \<in> snd ` set signals. arr ! i = 1) \<and> \<not> (\<exists>arr \<in> snd ` set signals. arr ! i = - 1)
                 \<longrightarrow> out ! i = 1) \<and>
              ((\<exists>arr \<in> snd ` set signals. arr ! i = - 1) \<and> \<not> (\<exists>arr \<in> snd ` set signals. arr ! i = 1)
                 \<longrightarrow> out ! i = - 1) \<and>
              ((\<exists>arr \<in> snd ` set signals. arr ! i = 1) \<and> (\<exists>arr \<in> snd ` set signals. arr ! i = - 1)
                 \<longrightarrow> out ! i = sgn (\<Sum>(nm, arr) \<leftarrow> signals. arr ! i)) \<and>
              (\<not> (\<exists>arr \<in> snd ` set signals. arr ! i \<noteq> 0) \<longrightarrow> out ! i = 0))"
proof -
  define L where "L i \<longleftrightarrow> (\<exists>arr \<in> snd ` set signals. arr ! i = 1)" for i
  define S where "S i \<longleftrightarrow> (\<exists>arr \<in> snd ` set signals. arr ! i = - 1)" for i
  define out where "out = map (\<lambda>j. if L j \<and> \<not> S j then 1 else if S j \<and> \<not> L j then - 1
                     else if L j \<and> S j then sgn (\<Sum>(nm, arr) \<leftarrow> signals. arr ! j) else 0) [0..<n]"
  have c: "combine config signals = combine_or signals"
    using combine_valid[OF assms(2,3)] assms(1) by simp
  have m: "1 \<in> set (column (map snd signals) i) \<longleftrightarrow> L i"
      "- 1 \<in> set (column (map snd signals) i) \<longleftrightarrow> S i" for i
    by (force simp: column_def L_def S_def)+
  have s: "sum_list (column (map snd signals) i) = (\<Sum>(nm, arr) \<leftarrow> signals. arr ! i)" for i
    by (simp add: column_def comp_def case_prod_unfold)
  have eq: "combine config signals = Inr out"
    unfolding c combine_or_eq[OF assms(2,3)] out_def by (simp add: Let_def m s)
  have z: "\<not> (\<exists>arr \<in> snd ` set signals. arr ! i \<noteq> 0) \<Longrightarrow> \<not> L i \<and> \<not> S i" for i
    unfolding L_def S_def by fastforce
  have "length out = n" by (simp add: out_def)
  moreover have "\<forall>i<n. (L i \<and> \<not> S i \<longrightarrow> out ! i = 1) \<and> (S i \<and> \<not> L i \<longrightarrow> out ! i = - 1) \<and>
      (L i \<and> S i \<longrightarrow> out ! i = sgn (\<Sum>(nm, arr) \<leftarrow> signals. arr ! i)) \<and>
      (\<not> (\<exists>arr \<in> snd ` set signals. arr ! i \<noteq> 0) \<longrightarrow> out ! i = 0)"
    using z by (auto simp: out_def)
  ultimately show ?thesis using eq unfolding L_def S_def by blast
qed

text \<open>The spec's example: \<open>a = [1,0,-1,0]\<close>, \<open>b = [0,0,-1,0]\<close> give \<open>[1,0,-1,0]\<close>.\<close>

theorem combine_or_mode_witness:
  "combine \<lparr>mode = OR, indicators = [], weighted_threshold = 1/2, confirm_window = 3\<rparr>
     [(''a'', [1, 0, - 1, 0]), (''b'', [0, 0, - 1, 0])] = Inr [1, 0, - 1, 0]"
proof -
  let ?cfg = "\<lparr>mode = OR, indicators = [], weighted_threshold = 1/2, confirm_window = 3\<rparr>"
  let ?ex = "[(''a'', [1, 0, - 1, 0]), (''b'', [0, 0, - 1, 0::int])]"
  have "mode ?cfg = OR" "?ex \<noteq> []" "\<forall>arr \<in> snd ` set ?ex. length arr = 4" by simp_all
  from combine_or_mode[OF this] obtain out where o: "combine ?cfg ?ex = Inr out" "length out = 4"
    and p: "\<And>i. i < 4 \<Longrightarrow>
              ((\<exists>arr \<in> snd ` set ?ex. arr ! i = 1) \<and> \<not> (\<exists>arr \<in> snd ` set ?ex. arr ! i = - 1)
                 \<longrightarrow> out ! i = 1) \<and>
              ((\<exists>arr \<in> snd ` set ?ex. arr ! i = - 1) \<and> \<not> (\<exists>arr \<in> snd ` set ?ex. arr ! i = 1)
                 \<longrightarrow> out ! i = - 1) \<and>
              ((\<exists>arr \<in> snd ` set ?ex. arr ! i = 1) \<and> (\<exists>arr \<in> snd ` set ?ex. arr ! i = - 1)
                 \<longrightarrow> out ! i = sgn (\<Sum>(nm, arr) \<leftarrow> ?ex. arr ! i)) \<and>
              (\<not> (\<exists>arr \<in> snd ` set ?ex. arr ! i \<noteq> 0) \<longrightarrow> out ! i = 0)"
    by blast
  have "out ! 0 = 1" "out ! 1 = 0" "out ! 2 = - 1" "out ! 3 = 0"
    using p[of 0] p[of 1] p[of 2] p[of 3] by simp_all
  with o show ?thesis by (simp add: list4_eqI)
qed

text \<open>
  Claim C4. Whatever the configuration (so before any mode is dispatched and any output is
  produced), \<open>combine\<close> raises the "No signals provided" error on an empty mapping, and
  on a mapping in which two arrays differ in length it raises the "different lengths"
  error, whose message carries the dictionary of every name with its length.
\<close>

theorem combine_error_paths:
  "combine config [] = Inl NoSignalsProvided \<and>
   (signals \<noteq> [] \<and> (\<exists>a \<in> snd ` set signals. \<exists>b \<in> snd ` set signals. length a \<noteq> length b) \<longrightarrow>
      combine config signals = Inl (DifferentLengths (map (\<lambda>(nm, arr). (nm, length arr)) signals)))"
proof -
  have "1 < length (remdups (map snd (map (\<lambda>(nm, arr). (nm, length arr)) signals)))"
    if "a \<in> snd ` set signals" "b \<in> snd ` set signals" "length a \<noteq> length b" for a b
  proof -
    let ?ls = "map snd (map (\<lambda>(nm, arr). (nm, length arr)) signals)"
    have "{length a, length b} \<subseteq> set ?ls" using that by force
    then have "card {length a, length b} \<le> card (set ?ls)" by (intro card_mono) auto
    then show ?thesis using that(3) by (simp add: length_remdups_card_conv)
  qed
  then show ?thesis by (auto simp: combine_def Let_def simp del: image_iff)
qed

text \<open>The spec's example: arrays of length 2 and 3; the error names both lengths.\<close>

theorem combine_error_paths_witness:
  "combine \<lparr>mode = AND, indicators = [], weighted_threshold = 1/2, confirm_window = 3\<rparr> []
     = Inl NoSignalsProvided \<and>
   combine \<lparr>mode = AND, indicators = [], weighted_threshold = 1/2, confirm_window = 3\<rparr>
     [(''a'', [1, 0]), (''b'', [1, 0, - 1])] = Inl (DifferentLengths [(''a'', 2), (''b'', 3)])"
proof -
  let ?cfg = "\<lparr>mode = AND, indicators = [], weighted_threshold = 1/2, confirm_window = 3\<rparr>"
  let ?ex = "[(''a'', [1, 0]), (''b'', [1, 0, - 1::int])]"
  have h: "?ex \<noteq> [] \<and> (\<exists>a \<in> snd ` set ?ex. \<exists>b \<in> snd ` set ?ex. length a \<noteq> length b)"
    by auto
  from combine_error_paths[of ?cfg ?ex] h
  have "combine ?cfg [] = Inl NoSignalsProvided"
    and "combine ?cfg ?ex = Inl (DifferentLengths (map (\<lambda>(nm, arr). (nm, length arr)) ?ex))"
    by blast+
  then show ?thesis by (simp add: eval_nat_numeral)
qed


section \<open>The signal combiner: CONFIRM mode\<close>

lemma getitem_nat: "i < length xs \<Longrightarrow> getitem xs (int i) = Inr (xs ! i)"
  by (simp add: getitem_def norm_index_def)

lemma setitem_nat: "i < length xs \<Longrightarrow> setitem xs (int i) v = Inr (xs[i := v])"
  by (simp add: setitem_def norm_index_def)

lemma slice_bound_nonneg: "0 \<le> k \<Longrightarrow> slice_bound n k = min n (nat k)"
  unfolding slice_bound_def Let_def by (simp add: min_def max_def) linarith

lemma in_py_slice:
  assumes "0 \<le> a" and "0 \<le> b"
  shows "v \<in> set (py_slice xs a b) \<longleftrightarrow> (\<exists>j<length xs. a \<le> int j \<and> int j < b \<and> xs ! j = v)"
proof -
  define A where "A = min (length xs) (nat a)"
  define B where "B = min (length xs) (nat b)"
  have sl: "py_slice xs a b = take (B - A) (drop A xs)"
    using assms by (simp add: py_slice_def slice_bound_nonneg A_def B_def Let_def)
  show ?thesis
  proof
    assume "v \<in> set (py_slice xs a b)"
    then obtain t where t: "t < B - A" "t < length xs - A" "drop A xs ! t = v"
      unfolding sl by (auto simp: in_set_conv_nth)
    then have "A + t < length xs" "a \<le> int (A + t)" "int (A + t) < b" "xs ! (A + t) = v"
      using assms by (auto simp: A_def B_def min_def split: if_splits)
    then show "\<exists>j<length xs. a \<le> int j \<and> int j < b \<and> xs ! j = v" by blast
  next
    assume "\<exists>j<length xs. a \<le> int j \<and> int j < b \<and> xs ! j = v"
    then obtain j where j: "j < length xs" "a \<le> int j" "int j < b" "xs ! j = v" by blast
    then have "A \<le> j" "j - A < B - A" "j - A < length xs - A"
      using assms by (auto simp: A_def B_def min_def)
    then have "drop A xs ! (j - A) = v" "j - A < length (take (B - A) (drop A xs))"
      using j by auto
    then show "v \<in> set (py_slice xs a b)"
      unfolding sl by (metis nth_mem nth_take length_take min_less_iff_conj)
  qed
qed


lemma efold_snoc: "efold f (xs @ [x]) s = ebind (efold f xs s) (f x)"
  by (simp add: efold_append ebind_def split: sum.splits)

lemma confirm_step_eq:
  assumes "i < n" and "length primary = n" and "\<forall>sec \<in> set secs. length sec = n"
    and "length result = n" and "- 1 \<le> w"
  shows "confirm_step primary secs w n i result =
           Inr (if primary ! i \<noteq> 0 \<and>
                   (\<exists>sec \<in> set secs. \<exists>j<n. int i - w \<le> int j \<and> int j \<le> int i + w \<and>
                       sec ! j = primary ! i)
                then result[i := primary ! i] else result)"
proof -
  have b: "0 \<le> max 0 (int i - w)" "0 \<le> min (int n) (int i + w + 1)"
    using assms(5) by auto
  let ?Q = "\<exists>sec \<in> set secs. \<exists>j<n. int i - w \<le> int j \<and> int j \<le> int i + w \<and>
                       sec ! j = primary ! i"
  have "(primary ! i \<in> set (py_slice sec (max 0 (int i - w)) (min (int n) (int i + w + 1)))) \<longleftrightarrow>
        (\<exists>j<n. int i - w \<le> int j \<and> int j \<le> int i + w \<and> sec ! j = primary ! i)"
    if "sec \<in> set secs" for sec
  proof -
    have "length sec = n" using that assms(3) by blast
    then show ?thesis
      using in_py_slice[OF b, of "primary ! i" sec] by auto
  qed
  then have any: "list_ex (list_ex (\<lambda>x. x = primary ! i))
                    (map (\<lambda>row. py_slice row (max 0 (int i - w)) (min (int n) (int i + w + 1))) secs)
                  \<longleftrightarrow> ?Q"
    by (simp add: list_ex_iff)
  have g: "getitem primary (int i) = Inr (primary ! i)"
    using assms(1,2) by (simp add: getitem_nat)
  have s: "setitem result (int i) (primary ! i) = Inr (result[i := primary ! i])"
    using assms(1,4) by (simp add: setitem_nat)
  show ?thesis
    unfolding confirm_step_def g ebind_Inr Let_def any s by auto
qed

lemma confirm_loop:
  assumes "length primary = n" and "\<forall>sec \<in> set secs. length sec = n" and "- 1 \<le> w"
    and "k \<le> n"
  shows "efold (confirm_step primary secs w n) [0..<k] (replicate n 0) =
           Inr (map (\<lambda>i. if primary ! i \<noteq> 0 \<and>
                   (\<exists>sec \<in> set secs. \<exists>j<n. int i - w \<le> int j \<and> int j \<le> int i + w \<and>
                       sec ! j = primary ! i)
                then primary ! i else 0) [0..<k] @ replicate (n - k) 0)"
  using assms(4)
proof (induction k)
  case 0
  then show ?case by simp
next
  case (Suc k)
  let ?f = "\<lambda>i. if primary ! i \<noteq> 0 \<and>
                   (\<exists>sec \<in> set secs. \<exists>j<n. int i - w \<le> int j \<and> int j \<le> int i + w \<and>
                       sec ! j = primary ! i)
                then primary ! i else 0"
  let ?r = "map ?f [0..<k] @ replicate (n - k) 0"
  have k: "k < n" using Suc.prems by simp
  then have rep: "replicate (n - k) (0::int) = 0 # replicate (n - Suc k) 0"
    by (cases "n - k") auto
  have len: "length ?r = n" using k by simp
  have upd: "(map ?f [0..<k] @ 0 # replicate (n - Suc k) 0)[k := v] =
               map ?f [0..<k] @ v # replicate (n - Suc k) 0" for v
    by (simp add: list_update_append)
  have "efold (confirm_step primary secs w n) [0..<Suc k] (replicate n 0) =
          confirm_step primary secs w n k ?r"
    using Suc by (simp add: efold_snoc)
  also have "\<dots> = Inr (map ?f [0..<Suc k] @ replicate (n - Suc k) 0)"
    unfolding confirm_step_eq[OF k assms(1,2) len assms(3)]
    by (auto simp: upd rep)
  finally show ?case .
qed

lemma sec_arrays_subset: "set (sec_arrays config signals) \<subseteq> snd ` set signals"
  by (force simp: sec_arrays_def List.map_filter_def dest: map_of_SomeD)

lemma combine_confirm_eq:
  assumes "primary_names config \<noteq> []"
    and "map_of signals (hd (primary_names config)) = Some primary"
    and "\<forall>arr \<in> snd ` set signals. length arr = n"
    and "sec_arrays config signals \<noteq> []" and "- 1 \<le> confirm_window config"
  shows "combine_confirm config signals =
           Inr (map (\<lambda>i. if primary ! i \<noteq> 0 \<and>
                   (\<exists>sec \<in> set (sec_arrays config signals). \<exists>j<n.
                       int i - confirm_window config \<le> int j \<and>
                       int j \<le> int i + confirm_window config \<and> sec ! j = primary ! i)
                then primary ! i else 0) [0..<n])"
proof -
  have "primary \<in> snd ` set signals"
    using map_of_SomeD[OF assms(2)] by force
  then have lp: "length primary = n" using assms(3) by blast
  have ls: "\<forall>sec \<in> set (sec_arrays config signals). length sec = n"
    using sec_arrays_subset[of config signals] assms(3) by blast
  have st: "np_stack (sec_arrays config signals) = Inr (sec_arrays config signals)"
    using np_stack_same(1)[OF assms(4) ls] .
  obtain p ps where ps: "primary_names config = p # ps"
    using assms(1) by (cases "primary_names config") auto
  show ?thesis
    using assms(2,4) confirm_loop[OF lp ls assms(5), of n]
    by (simp add: combine_confirm_def ps st lp)
qed


text \<open>
  Claim C3. In CONFIRM mode, with a window of \<open>confirm_window\<close> bars:
  \<^item> if the configuration lists no primary indicator, or the first primary name is not a
    key of the mapping, the result is that of AND mode on the same mapping (errors
    included);
  \<^item> otherwise, on a mapping whose arrays all have length \<open>n\<close>: if the mapping holds no
    secondary indicator, the result is the primary array unchanged; if it holds one and
    \<open>confirm_window \<ge> -1\<close> (so for every non-negative window), the result has length
    \<open>n\<close> and bar \<open>i\<close> is the primary's value there exactly when that value is non-zero
    and some secondary array equals it at some bar \<open>j\<close> of the array with
    \<open>i - confirm_window \<le> j \<le> i + confirm_window\<close>, and 0 otherwise.
\<close>

theorem combine_confirm_mode:
  assumes "mode config = CONFIRM"
  shows "(primary_names config = [] \<or> map_of signals (hd (primary_names config)) = None \<longrightarrow>
            combine config signals = combine (config\<lparr>mode := AND\<rparr>) signals) \<and>
         (primary_names config \<noteq> [] \<and> map_of signals (hd (primary_names config)) = Some primary \<and>
          (\<forall>arr \<in> snd ` set signals. length arr = n) \<longrightarrow>
            (sec_arrays config signals = [] \<longrightarrow> combine config signals = Inr primary) \<and>
            (sec_arrays config signals \<noteq> [] \<and> - 1 \<le> confirm_window config \<longrightarrow>
               (\<exists>out. combine config signals = Inr out \<and> length out = n \<and>
                  (\<forall>i<n. out ! i =
                     (if primary ! i \<noteq> 0 \<and>
                         (\<exists>sec \<in> set (sec_arrays config signals). \<exists>j<n.
                             int i - confirm_window config \<le> int j \<and>
                             int j \<le> int i + confirm_window config \<and> sec ! j = primary ! i)
                      then primary ! i else 0)))))"
proof (intro conjI impI)
  assume "primary_names config = [] \<or> map_of signals (hd (primary_names config)) = None"
  then have "combine_confirm config signals = combine_and signals"
    by (auto simp: combine_confirm_def split: list.splits)
  then show "combine config signals = combine (config\<lparr>mode := AND\<rparr>) signals"
    using assms by (simp add: combine_def Let_def)
next
  assume h: "primary_names config \<noteq> [] \<and> map_of signals (hd (primary_names config)) = Some primary \<and>
          (\<forall>arr \<in> snd ` set signals. length arr = n)"
  then have ne: "signals \<noteq> []" by auto
  have c: "combine config signals = combine_confirm config signals"
    using combine_valid[OF ne, of n config] h assms by simp
  {
    assume "sec_arrays config signals = []"
    then show "combine config signals = Inr primary"
      using h unfolding c by (auto simp: combine_confirm_def split: list.splits)
  }
  {
    assume s: "sec_arrays config signals \<noteq> [] \<and> - 1 \<le> confirm_window config"
    have "combine config signals = Inr (map (\<lambda>i. if primary ! i \<noteq> 0 \<and>
                   (\<exists>sec \<in> set (sec_arrays config signals). \<exists>j<n.
                       int i - confirm_window config \<le> int j \<and>
                       int j \<le> int i + confirm_window config \<and> sec ! j = primary ! i)
                then primary ! i else 0) [0..<n])"
      unfolding c using combine_confirm_eq[of config signals primary n] h s by blast
    then show "\<exists>out. combine config signals = Inr out \<and> length out = n \<and>
                  (\<forall>i<n. out ! i =
                     (if primary ! i \<noteq> 0 \<and>
                         (\<exists>sec \<in> set (sec_arrays config signals). \<exists>j<n.
                             int i - confirm_window config \<le> int j \<and>
                             int j \<le> int i + confirm_window config \<and> sec ! j = primary ! i)
                      then primary ! i else 0))"
      by auto
  }
qed

text \<open>
  A remark outside the claim, whose window is a number of bars: \<open>confirm_window\<close> is an
  \<^verbatim>\<open>int\<close> that the configuration does not validate, and for \<open>confirm_window = -2\<close> the
  source computes, at bar 0, \<open>start = max(0, 0 + 2) = 2\<close> and
  \<open>end = min(5, 0 - 2 + 1) = -1\<close>; the slice \<^verbatim>\<open>[2:-1]\<close> counts its end from the back and
  holds bars 2 and 3, so the secondary's 1 at bar 2 confirms bar 0.
\<close>

lemma combine_confirm_negative_window:
  "combine \<lparr>mode = CONFIRM,
            indicators = [\<lparr>name = ''p'', weight = 1, role = ''primary'', signal_source = ''major''\<rparr>,
                          \<lparr>name = ''s'', weight = 1, role = ''secondary'', signal_source = ''major''\<rparr>],
            weighted_threshold = 1/2, confirm_window = - 2\<rparr>
     [(''p'', [1, 0, 0, 0, 0]), (''s'', [0, 0, 1, 0, 0])] = Inr [1, 0, 0, 0, 0] \<and>
   \<not> (\<exists>j<5. int 0 - (- 2) \<le> int j \<and> int j \<le> int 0 + (- 2) \<and>
          [0, 0, 1, 0, 0 :: int] ! j = [1, 0, 0, 0, 0] ! 0)"
  by (simp add: combine_def combine_confirm_def primary_names_def secondary_names_def
      sec_arrays_def List.map_filter_def np_stack_def confirm_step_def getitem_def setitem_def
      norm_index_def py_slice_def slice_bound_def upt_rec Let_def)


text \<open>
  Three instances: a confirmed and two unconfirmed non-zero bars with window 1; no
  secondary in the configuration (the primary passes through); no primary (AND mode).
\<close>

theorem combine_confirm_mode_witness:
  "combine \<lparr>mode = CONFIRM,
            indicators = [\<lparr>name = ''p'', weight = 1, role = ''primary'', signal_source = ''major''\<rparr>,
                          \<lparr>name = ''s'', weight = 1, role = ''secondary'', signal_source = ''major''\<rparr>],
            weighted_threshold = 1/2, confirm_window = 1\<rparr>
     [(''p'', [1, 0, 0, - 1, 1]), (''s'', [0, 1, 0, 0, 0])] = Inr [1, 0, 0, 0, 0] \<and>
   combine \<lparr>mode = CONFIRM,
            indicators = [\<lparr>name = ''p'', weight = 1, role = ''primary'', signal_source = ''major''\<rparr>],
            weighted_threshold = 1/2, confirm_window = 1\<rparr>
     [(''p'', [1, 0, 0, - 1, 1]), (''s'', [0, 1, 0, 0, 0])] = Inr [1, 0, 0, - 1, 1] \<and>
   combine \<lparr>mode = CONFIRM,
            indicators = [\<lparr>name = ''s'', weight = 1, role = ''secondary'', signal_source = ''major''\<rparr>],
            weighted_threshold = 1/2, confirm_window = 1\<rparr>
     [(''p'', [1, 0, 0, - 1, 1]), (''s'', [0, 1, 0, 0, 0])] =
   combine \<lparr>mode = AND,
            indicators = [\<lparr>name = ''s'', weight = 1, role = ''secondary'', signal_source = ''major''\<rparr>],
            weighted_threshold = 1/2, confirm_window = 1\<rparr>
     [(''p'', [1, 0, 0, - 1, 1]), (''s'', [0, 1, 0, 0, 0])]"
proof -
  let ?p = "\<lparr>name = ''p'', weight = 1, role = ''primary'', signal_source = ''major''\<rparr>"
  let ?s = "\<lparr>name = ''s'', weight = 1, role = ''secondary'', signal_source = ''major''\<rparr>"
  let ?ex = "[(''p'', [1, 0, 0, - 1, 1]), (''s'', [0, 1, 0, 0, 0::int])]"
  let ?c1 = "\<lparr>mode = CONFIRM, indicators = [?p, ?s], weighted_threshold = 1/2, confirm_window = 1\<rparr>"
  let ?c2 = "\<lparr>mode = CONFIRM, indicators = [?p], weighted_threshold = 1/2, confirm_window = 1\<rparr>"
  let ?c3 = "\<lparr>mode = CONFIRM, indicators = [?s], weighted_threshold = 1/2, confirm_window = 1\<rparr>"
  have len: "\<forall>arr \<in> snd ` set ?ex. length arr = 5" by simp
  have pn: "primary_names ?c1 = [''p'']" "primary_names ?c2 = [''p'']" "primary_names ?c3 = []"
    by (simp_all add: primary_names_def)
  have sa: "sec_arrays ?c1 ?ex = [[0, 1, 0, 0, 0]]" "sec_arrays ?c2 ?ex = []"
    by (simp_all add: sec_arrays_def secondary_names_def List.map_filter_def)
  from combine_confirm_mode[of ?c1 ?ex "[1, 0, 0, - 1, 1]" 5] len
  obtain out where o: "combine ?c1 ?ex = Inr out" "length out = 5"
    and p: "\<And>i. i < 5 \<Longrightarrow> out ! i =
               (if [1, 0, 0, - 1, 1] ! i \<noteq> (0::int) \<and>
                   (\<exists>j<5. int i - 1 \<le> int j \<and> int j \<le> int i + 1 \<and>
                       [0, 1, 0, 0, 0] ! j = [1, 0, 0, - 1, 1::int] ! i)
                then [1, 0, 0, - 1, 1] ! i else 0)"
    by (auto simp: pn sa)
  have ex5: "(\<exists>j<5. P j) \<longleftrightarrow> P 0 \<or> P 1 \<or> P 2 \<or> P 3 \<or> P (4::nat)" for P
    by (auto simp: eval_nat_numeral less_Suc_eq)
  have "out ! 0 = 1" "out ! 1 = 0" "out ! 2 = 0" "out ! 3 = 0" "out ! 4 = 0"
    using p[of 0] p[of 1] p[of 2] p[of 3] p[of 4] by (simp_all add: ex5)
  with o have 1: "combine ?c1 ?ex = Inr [1, 0, 0, 0, 0]" by (simp add: list5_eqI)
  from combine_confirm_mode[of ?c2 ?ex "[1, 0, 0, - 1, 1]" 5] len
  have 2: "combine ?c2 ?ex = Inr [1, 0, 0, - 1, 1]"
    by (auto simp: pn sa)
  from combine_confirm_mode[of ?c3 ?ex "[]" 5]
  have 3: "combine ?c3 ?ex = combine (?c3\<lparr>mode := AND\<rparr>) ?ex"
    by (simp add: pn)
  from 1 2 3 show ?thesis by simp
qed


section \<open>Moving-average kernels\<close>

lemma nb_getitem_nat: "i < length xs \<Longrightarrow> nb_getitem xs (int i) = Inr (xs ! i)"
  by (simp add: nb_getitem_def nb_index_def)

lemma nb_setitem_nat: "i < length xs \<Longrightarrow> nb_setitem xs (int i) v = Inr (xs[i := v])"
  by (simp add: nb_setitem_def nb_index_def)

lemma efold_invariant:
  assumes "P s" and "\<And>x s. x \<in> set xs \<Longrightarrow> P s \<Longrightarrow> \<exists>s'. f x s = Inr s' \<and> P s'"
  shows "\<exists>s'. efold f xs s = Inr s' \<and> P s'"
  using assms
proof (induction xs arbitrary: s)
  case Nil
  then show ?case by simp
next
  case (Cons x xs)
  from Cons.prems(2)[of x s] Cons.prems(1) obtain s1 where s1: "f x s = Inr s1" "P s1" by auto
  from Cons.IH[OF s1(2)] Cons.prems(2) show ?case by (simp add: s1(1))
qed

lemma efold_fill:
  assumes "length out0 = n"
    and "\<And>i out. i < n \<Longrightarrow> length out = n \<Longrightarrow> step i out = Inr (out[i := g i])"
    and "k \<le> n"
  shows "efold step [0..<k] out0 = Inr (map g [0..<k] @ drop k out0)"
  using assms(3)
proof (induction k)
  case 0
  then show ?case by simp
next
  case (Suc k)
  then have k: "k < n" by simp
  let ?r = "map g [0..<k] @ drop k out0"
  have len: "length ?r = n" using k assms(1) by simp
  have "drop k out0 = out0 ! k # drop (Suc k) out0"
    using k assms(1) by (simp add: Cons_nth_drop_Suc)
  then have upd: "?r[k := g k] = map g [0..<Suc k] @ drop (Suc k) out0"
    by (simp add: list_update_append)
  have "efold step [0..<Suc k] out0 = step k ?r"
    using Suc by (simp add: efold_snoc)
  then show ?case using assms(2)[OF k len] upd by simp
qed

lemma efold_fill_all:
  assumes "length out0 = n"
    and "\<And>i out. i < n \<Longrightarrow> length out = n \<Longrightarrow> step i out = Inr (out[i := g i])"
  shows "efold step [0..<n] out0 = Inr (map g [0..<n])"
  using efold_fill[OF assms, of n] assms(1) by simp

lemma length_np_empty [simp]: "length (np_empty n) = n"
  by (simp add: np_empty_def)

lemma ema_returns:
  assumes "src \<noteq> []" and "window \<noteq> - 1"
  shows "\<exists>e. ema_1d_nb src window = Inr e \<and> length e = length src"
proof -
  let ?n = "length src"
  let ?alpha = "2 / (real_of_int window + 1)"
  have a: "rdiv 2 (real_of_int window + 1) = Inr ?alpha"
  proof -
    have "real_of_int window \<noteq> - 1" using assms(2) by linarith
    then have "real_of_int window + 1 \<noteq> 0" by linarith
    then show ?thesis by (simp add: rdiv_def)
  qed
  have n0: "0 < ?n" using assms(1) by simp
  have g0: "nb_getitem src 0 = Inr (src ! 0)" using nb_getitem_nat[of 0 src] n0 by simp
  have s0: "nb_setitem (np_empty ?n) 0 (src ! 0) = Inr ((np_empty ?n)[0 := src ! 0])"
    using nb_setitem_nat[of 0 "np_empty ?n"] n0 by simp
  have step: "\<exists>s'. ema_step src ?alpha x s = Inr s' \<and> length s' = ?n"
    if "x \<in> set [1..<?n]" "length s = ?n" for x s
  proof -
    from that have x: "1 \<le> x" "x < ?n" by auto
    then have "int x - 1 = int (x - 1)" by simp
    then have "nb_getitem s (int x - 1) = Inr (s ! (x - 1))"
      using nb_getitem_nat[of "x - 1" s] x that(2) by simp
    then show ?thesis
      using x that(2) by (simp add: ema_step_def nb_getitem_nat nb_setitem_nat)
  qed
  have "\<exists>s'. efold (ema_step src ?alpha) [1..<?n] ((np_empty ?n)[0 := src ! 0]) = Inr s' \<and> length s' = ?n"
    by (rule efold_invariant[where P = "\<lambda>s. length s = ?n"]) (simp, use step in blast)
  then show ?thesis
    by (simp add: ema_1d_nb_def Let_def a g0 s0)
qed

text \<open>
  Claim C5. For every window \<open>n \<ge> 1\<close> and every series that has a first sample, the EMA
  kernel returns \<open>e1\<close> on the series and \<open>e2\<close> on \<open>e1\<close>, and the DEMA kernel returns an
  array of the series' length whose value at every index \<open>i\<close> is \<open>2 * e1[i] - e2[i]\<close>,
  computed from these very outputs of the EMA kernel (which seeds \<open>out[0] = src[0]\<close>).
  The empty series has no index and no seed \<open>src[0]\<close>, so the identity has nothing to
  state there.
\<close>

theorem dema_chain_identity:
  assumes "1 \<le> window" and "src \<noteq> []"
  shows "\<exists>e1 e2 out. ema_1d_nb src window = Inr e1 \<and> ema_1d_nb e1 window = Inr e2 \<and>
           dema_1d_nb src window = Inr out \<and> length out = length src \<and>
           (\<forall>i<length src. out ! i = fsub (fmul (Val 2) (e1 ! i)) (e2 ! i))"
proof -
  have w: "window \<noteq> - 1" using assms(1) by simp
  from ema_returns[OF assms(2) w] obtain e1
    where e1: "ema_1d_nb src window = Inr e1" "length e1 = length src"
    by blast
  then have "e1 \<noteq> []" using assms(2) by auto
  from ema_returns[OF this w] obtain e2 where e2: "ema_1d_nb e1 window = Inr e2" "length e2 = length src"
    using e1(2) by auto
  let ?g = "\<lambda>i. fsub (fmul (Val 2) (e1 ! i)) (e2 ! i)"
  have "efold (dema_step e1 e2) [0..<length src] (np_empty (length src)) = Inr (map ?g [0..<length src])"
    by (rule efold_fill_all) (simp_all add: dema_step_def nb_getitem_nat nb_setitem_nat e1(2) e2(2))
  then have "dema_1d_nb src window = Inr (map ?g [0..<length src])"
    by (simp add: dema_1d_nb_def e1 e2 Let_def)
  then show ?thesis
    using e1 e2 by simp
qed

text \<open>The series \<open>[1, 2, 6]\<close> with window 3 (\<open>alpha = 1/2\<close>).\<close>

theorem dema_chain_identity_witness:
  "ema_1d_nb [Val 1, Val 2, Val 6] 3 = Inr [Val 1, Val (3/2), Val (15/4)] \<and>
   ema_1d_nb [Val 1, Val (3/2), Val (15/4)] 3 = Inr [Val 1, Val (5/4), Val (5/2)] \<and>
   dema_1d_nb [Val 1, Val 2, Val 6] 3 = Inr [Val 1, Val (7/4), Val 5]"
proof -
  let ?src = "[Val 1, Val 2, Val 6]"
  have c1: "ema_1d_nb ?src 3 = Inr [Val 1, Val (3/2), Val (15/4)]"
    by (simp add: ema_1d_nb_def ema_step_def rdiv_def nb_getitem_def nb_setitem_def nb_index_def
        np_empty_def upt_rec)
  have c2: "ema_1d_nb [Val 1, Val (3/2), Val (15/4)] 3 = Inr [Val 1, Val (5/4), Val (5/2)]"
    by (simp add: ema_1d_nb_def ema_step_def rdiv_def nb_getitem_def nb_setitem_def nb_index_def
        np_empty_def upt_rec)
  have "(1::int) \<le> 3" "?src \<noteq> []" by simp_all
  from dema_chain_identity[OF this] c1 c2
  obtain out where o: "dema_1d_nb ?src 3 = Inr out" "length out = 3"
    and p: "\<And>i. i < 3 \<Longrightarrow> out ! i =
        fsub (fmul (Val 2) ([Val 1, Val (3/2), Val (15/4)] ! i)) ([Val 1, Val (5/4), Val (5/2)] ! i)"
    by auto
  have "out ! 0 = Val 1" "out ! 1 = Val (7/4)" "out ! 2 = Val 5"
    using p[of 0] p[of 1] p[of 2] by simp_all
  then have "out = [Val 1, Val (7/4), Val 5]"
    using o(2) by (intro nth_equalityI) (auto simp: less_Suc_eq eval_nat_numeral)
  with o c1 c2 show ?thesis by simp
qed







text \<open>
  The McGinley kernel. The part of claim C7 that holds: at a bar whose previous output is
  0 no division is performed, and the output is the raw input \<open>src[i]\<close>.
\<close>

lemma mcginley_pass_through:
  assumes "1 \<le> i" and "i < length src" and "length out = length src" and "out ! (i - 1) = Val 0"
  shows "mcginley_step src window i out = Inr (out[i := src ! i])"
proof -
  have "int i - 1 = int (i - 1)" using assms(1) by simp
  then have "nb_getitem out (int i - 1) = Inr (Val 0)"
    using nb_getitem_nat[of "i - 1" out] assms by simp
  then show ?thesis
    using assms by (simp add: mcginley_step_def nb_getitem_nat nb_setitem_nat)
qed

text \<open>
  Claim C7 says that under the guard \<^verbatim>\<open>prev == 0.0\<close> the division branch never divides
  by zero. The branch divides twice: by \<open>prev\<close>, which the guard covers, and by
  \<open>window * ratio ** 4\<close>, which it does not. For the series \<open>[1, 0]\<close> the second bar has
  \<open>prev = 1\<close>, \<open>ratio = 0 / 1 = 0\<close>, and the second divisor is \<open>10 * 0 ** 4 = 0\<close>: the
  kernel divides by zero.
\<close>

theorem mcginley_zero_sample_divides_by_zero:
  "mcginley_1d_nb [Val 1, Val 0] 10 = Inl ZeroDivisionError"
  by (simp add: mcginley_1d_nb_def mcginley_step_def nb_getitem_def nb_setitem_def
      nb_index_def np_empty_def upt_rec)


section \<open>The Sniper controller\<close>

lemma resolve_loop_unchanged: "resolve_loop table s acc = acc"
  by (induction table) (simp_all add: case_prod_unfold)

text \<open>
  Claim C10. In \<^verbatim>\<open>compute_signal\<close> the loop over \<^verbatim>\<open>MA_TYPE_NAMES.items()\<close> compares
  the integer code of each entry with the configured string, which never succeeds: for
  every configured \<open>ma_type\<close> string the resolved index is the initial value 0 (the code
  of the simple moving average). So two runs that differ only in the configured
  \<open>ma_type\<close> give the same result, whatever the indicator \<open>run\<close> and the frame are.
\<close>

theorem ma_type_name_is_ignored:
  "resolve_ma_type_idx s = PyInt 0 \<and>
   compute_signal run (cfg\<lparr>ma_type := s\<rparr>) df = compute_signal run cfg df"
  by (simp add: resolve_ma_type_idx_def resolve_loop_unchanged compute_signal_def)

lemma latest_present_eq: "latest_present xs = Inr (xs \<noteq> [] \<and> last xs \<noteq> NaN)"
proof (cases "xs = []")
  case True
  then show ?thesis by (simp add: latest_present_def)
next
  case False
  then have "nat (int (length xs) + - 1) = length xs - 1" by simp
  moreover have "0 < length xs" using False by simp
  ultimately have "getitem xs (- 1) = Inr (last xs)"
    using False by (simp add: getitem_def norm_index_def last_conv_nth Suc_le_eq)
  then show ?thesis using False by (simp add: latest_present_def isnan_def)
qed

lemma df_column_lower: "map_of df lower = Some v \<Longrightarrow> df_column df lower upper = Inr v"
  by (simp add: df_column_def)

lemma df_column_upper:
  "map_of df lower = None \<Longrightarrow> map_of df upper = Some v \<Longrightarrow> df_column df lower upper = Inr v"
  by (simp add: df_column_def)

lemma df_column_checked: "df_column df lower upper \<noteq> Inl UncheckedAccess"
  by (simp add: df_column_def split: option.splits)

lemma compute_signal_range: "compute_signal run cfg df = Inr s \<Longrightarrow> s \<in> {- 1, 0, 1}"
  by (auto simp: compute_signal_def latest_present_eq ebind_def Let_def split: sum.splits if_splits)

lemma compute_signal_unchecked:
  assumes "compute_signal run cfg df = Inl UncheckedAccess"
  shows "\<exists>c h l v n m oo tt d a. run c h l v n m oo tt d a = Inl UncheckedAccess"
  using assms df_column_checked
  by (auto simp: compute_signal_def latest_present_eq ebind_def Let_def split: sum.splits if_splits)
    blast

lemma update_cases:
  "update_processed_data run cfg provider_frame st =
     (case provider_frame of
        None \<Rightarrow> Inr (st\<lparr>processed_signal := Some (current_signal st)\<rparr>)
      | Some df \<Rightarrow>
          if df_empty df then Inr (st\<lparr>processed_signal := Some (current_signal st)\<rparr>)
          else (case compute_signal run cfg df of
                  Inr s \<Rightarrow> Inr (st\<lparr>current_signal := s, processed_signal := Some s\<rparr>)
                | Inl e \<Rightarrow> if e = UncheckedAccess then Inl e
                           else Inr (st\<lparr>current_signal := 0, processed_signal := Some 0\<rparr>)))"
  by (simp add: update_processed_data_def df_empty_def Let_def split: option.splits sum.splits)

lemma update_range:
  assumes "current_signal st \<in> {- 1, 0, 1}"
    and "update_processed_data run cfg provider_frame st = Inr st'"
  shows "current_signal st' \<in> {- 1, 0, 1}"
  using assms compute_signal_range[of run cfg]
  by (auto simp: update_cases split: option.splits sum.splits if_splits) blast+

lemma updates_range:
  assumes "current_signal st \<in> {- 1, 0, 1}"
    and "efold (update_processed_data run cfg) frames st = Inr st'"
  shows "current_signal st' \<in> {- 1, 0, 1}"
  using assms
proof (induction frames arbitrary: st)
  case Nil
  then show ?case by simp
next
  case (Cons f frames)
  then obtain st1 where st1: "update_processed_data run cfg f st = Inr st1"
    "efold (update_processed_data run cfg) frames st1 = Inr st'"
    by (auto split: sum.splits)
  from update_range[OF Cons.prems(1) st1(1)] Cons.IH[OF _ st1(2)] show ?case by blast
qed

lemma updates_return:
  assumes "\<And>c h l v n m oo tt d a. run c h l v n m oo tt d a \<noteq> Inl UncheckedAccess"
  shows "\<exists>st'. efold (update_processed_data run cfg) frames st = Inr st'"
proof (induction frames arbitrary: st)
  case Nil
  then show ?case by simp
next
  case (Cons f frames)
  have "\<exists>st1. update_processed_data run cfg f st = Inr st1"
    using assms compute_signal_unchecked[of run cfg]
    by (auto simp: update_cases split: option.splits sum.splits)
  then show ?case using Cons.IH by (auto split: sum.splits)
qed


text \<open>
  Claim C9. The controller's signal is derived as follows.
  \<^item> \<^verbatim>\<open>compute_signal\<close> reads the close, high, low and volume columns of the frame
    (lower-case names first, capitalised names otherwise) and runs the indicator on
    them; if the run returns, the signal is 1 if the latest bar of \<open>major_buy\<close> exists
    and is not NaN, otherwise -1 if the latest bar of \<open>major_sell\<close> exists and is not
    NaN, otherwise 0. The buy check comes first. Every signal it returns is -1, 0 or 1.
  \<^item> \<^verbatim>\<open>update_processed_data\<close> keeps the current signal when there is no provider or
    the frame is empty, takes the signal of \<^verbatim>\<open>compute_signal\<close> on a frame that is not
    empty, and sets 0 when \<^verbatim>\<open>compute_signal\<close> raises.
  \<^item> So, from the constructor's signal 0 and through any sequence of updates, on empty,
    all-NaN or any other frames, the controller's signal is always -1, 0 or 1; and the
    updates do return whenever the indicator makes no unchecked access.
\<close>

theorem sniper_signal_derivation:
  "((map_of df ''close'' = Some close \<or> map_of df ''close'' = None \<and> map_of df ''Close'' = Some close) \<and>
    (map_of df ''high'' = Some high \<or> map_of df ''high'' = None \<and> map_of df ''High'' = Some high) \<and>
    (map_of df ''low'' = Some low \<or> map_of df ''low'' = None \<and> map_of df ''Low'' = Some low) \<and>
    (map_of df ''volume'' = Some volume \<or>
       map_of df ''volume'' = None \<and> map_of df ''Volume'' = Some volume) \<and>
    run close high low volume (length_cfg cfg) (resolve_ma_type_idx (ma_type cfg))
      (overbought_oversold cfg) (trail_threshold cfg) (dmi_len cfg) (adx_threshold cfg) = Inr result
    \<longrightarrow> compute_signal run cfg df =
          Inr (if major_buy result \<noteq> [] \<and> last (major_buy result) \<noteq> NaN then 1
               else if major_sell result \<noteq> [] \<and> last (major_sell result) \<noteq> NaN then - 1
               else 0)) \<and>
   (\<forall>s. compute_signal run cfg df = Inr s \<longrightarrow> s \<in> {- 1, 0, 1}) \<and>
   update_processed_data run cfg None st = Inr (st\<lparr>processed_signal := Some (current_signal st)\<rparr>) \<and>
   (df_empty df \<longrightarrow>
      update_processed_data run cfg (Some df) st =
        Inr (st\<lparr>processed_signal := Some (current_signal st)\<rparr>)) \<and>
   (\<not> df_empty df \<longrightarrow>
      (\<forall>s. compute_signal run cfg df = Inr s \<longrightarrow>
           update_processed_data run cfg (Some df) st =
             Inr (st\<lparr>current_signal := s, processed_signal := Some s\<rparr>)) \<and>
      (\<forall>e. compute_signal run cfg df = Inl e \<and> e \<noteq> UncheckedAccess \<longrightarrow>
           update_processed_data run cfg (Some df) st =
             Inr (st\<lparr>current_signal := 0, processed_signal := Some 0\<rparr>))) \<and>
   (\<forall>st'. efold (update_processed_data run cfg) frames initial_state = Inr st' \<longrightarrow>
          get_signal st' \<in> {- 1, 0, 1}) \<and>
   ((\<forall>c h l v n m oo tt d a. run c h l v n m oo tt d a \<noteq> Inl UncheckedAccess) \<longrightarrow>
      (\<exists>st'. efold (update_processed_data run cfg) frames initial_state = Inr st'))"
proof (intro conjI impI allI)
  assume h: "(map_of df ''close'' = Some close \<or> map_of df ''close'' = None \<and> map_of df ''Close'' = Some close) \<and>
    (map_of df ''high'' = Some high \<or> map_of df ''high'' = None \<and> map_of df ''High'' = Some high) \<and>
    (map_of df ''low'' = Some low \<or> map_of df ''low'' = None \<and> map_of df ''Low'' = Some low) \<and>
    (map_of df ''volume'' = Some volume \<or>
       map_of df ''volume'' = None \<and> map_of df ''Volume'' = Some volume) \<and>
    run close high low volume (length_cfg cfg) (resolve_ma_type_idx (ma_type cfg))
      (overbought_oversold cfg) (trail_threshold cfg) (dmi_len cfg) (adx_threshold cfg) = Inr result"
  then have cols: "df_column df ''close'' ''Close'' = Inr close" "df_column df ''high'' ''High'' = Inr high"
    "df_column df ''low'' ''Low'' = Inr low" "df_column df ''volume'' ''Volume'' = Inr volume"
    using df_column_lower df_column_upper by metis+
  with h show "compute_signal run cfg df =
          Inr (if major_buy result \<noteq> [] \<and> last (major_buy result) \<noteq> NaN then 1
               else if major_sell result \<noteq> [] \<and> last (major_sell result) \<noteq> NaN then - 1
               else 0)"
    by (simp add: compute_signal_def latest_present_eq Let_def)
next
  fix s assume "compute_signal run cfg df = Inr s"
  then show "s \<in> {- 1, 0, 1}" by (rule compute_signal_range)
next
  show "update_processed_data run cfg None st = Inr (st\<lparr>processed_signal := Some (current_signal st)\<rparr>)"
    by (simp add: update_cases)
next
  assume "df_empty df"
  then show "update_processed_data run cfg (Some df) st =
        Inr (st\<lparr>processed_signal := Some (current_signal st)\<rparr>)"
    by (simp add: update_cases)
next
  fix s assume "\<not> df_empty df" "compute_signal run cfg df = Inr s"
  then show "update_processed_data run cfg (Some df) st =
             Inr (st\<lparr>current_signal := s, processed_signal := Some s\<rparr>)"
    by (simp add: update_cases)
next
  fix e assume "\<not> df_empty df" "compute_signal run cfg df = Inl e \<and> e \<noteq> UncheckedAccess"
  then show "update_processed_data run cfg (Some df) st =
             Inr (st\<lparr>current_signal := 0, processed_signal := Some 0\<rparr>)"
    by (simp add: update_cases)
next
  fix st' assume "efold (update_processed_data run cfg) frames initial_state = Inr st'"
  from updates_range[OF _ this] show "get_signal st' \<in> {- 1, 0, 1}"
    by (simp add: initial_state_def get_signal_def)
next
  assume "\<forall>c h l v n m oo tt d a. run c h l v n m oo tt d a \<noteq> Inl UncheckedAccess"
  then show "\<exists>st'. efold (update_processed_data run cfg) frames initial_state = Inr st'"
    by (intro updates_return) blast
qed


text \<open>
  Instances: buy and sell both present at the latest bar (the buy check wins); only sell
  present; all-NaN prices under capitalised column names; no provider; a frame with the
  four columns and no row; an update that takes the signal -1; a frame without the price
  columns, where \<^verbatim>\<open>compute_signal\<close> raises \<^verbatim>\<open>KeyError\<close> and the signal becomes 0.
\<close>

theorem sniper_signal_derivation_witness:
  "compute_signal (\<lambda>c h l v n m oo tt d a. Inr \<lparr>major_buy = [NaN, Val 1], major_sell = [NaN, Val 2]\<rparr>)
     sniper_test_config
     [(''close'', [Val 1, Val 1]), (''high'', [Val 1, Val 1]), (''low'', [Val 1, Val 1]),
      (''volume'', [Val 1, Val 1])] = Inr 1 \<and>
   compute_signal (\<lambda>c h l v n m oo tt d a. Inr \<lparr>major_buy = [Val 1, NaN], major_sell = [NaN, Val 2]\<rparr>)
     sniper_test_config
     [(''close'', [Val 1, Val 1]), (''high'', [Val 1, Val 1]), (''low'', [Val 1, Val 1]),
      (''volume'', [Val 1, Val 1])] = Inr (- 1) \<and>
   compute_signal (\<lambda>c h l v n m oo tt d a. Inr \<lparr>major_buy = c, major_sell = c\<rparr>)
     sniper_test_config
     [(''Close'', [NaN, NaN]), (''High'', [NaN, NaN]), (''Low'', [NaN, NaN]),
      (''Volume'', [NaN, NaN])] = Inr 0 \<and>
   update_processed_data
     (\<lambda>c h l v n m oo tt d a. Inr \<lparr>major_buy = [NaN, Val 1], major_sell = [NaN, Val 2]\<rparr>)
     sniper_test_config None initial_state = Inr \<lparr>current_signal = 0, processed_signal = Some 0\<rparr> \<and>
   update_processed_data
     (\<lambda>c h l v n m oo tt d a. Inr \<lparr>major_buy = [NaN, Val 1], major_sell = [NaN, Val 2]\<rparr>)
     sniper_test_config (Some [(''close'', []), (''high'', []), (''low'', []), (''volume'', [])])
     initial_state = Inr \<lparr>current_signal = 0, processed_signal = Some 0\<rparr> \<and>
   update_processed_data
     (\<lambda>c h l v n m oo tt d a. Inr \<lparr>major_buy = [Val 1, NaN], major_sell = [NaN, Val 2]\<rparr>)
     sniper_test_config
     (Some [(''close'', [Val 1, Val 1]), (''high'', [Val 1, Val 1]), (''low'', [Val 1, Val 1]),
            (''volume'', [Val 1, Val 1])])
     initial_state = Inr \<lparr>current_signal = - 1, processed_signal = Some (- 1)\<rparr> \<and>
   update_processed_data
     (\<lambda>c h l v n m oo tt d a. Inr \<lparr>major_buy = [NaN, Val 1], major_sell = [NaN, Val 2]\<rparr>)
     sniper_test_config (Some [(''open'', [Val 1])])
     \<lparr>current_signal = 1, processed_signal = Some 1\<rparr> =
       Inr \<lparr>current_signal = 0, processed_signal = Some 0\<rparr>"
proof -
  let ?df = "[(''close'', [Val 1, Val 1]), (''high'', [Val 1, Val 1]), (''low'', [Val 1, Val 1]),
      (''volume'', [Val 1, Val 1])]"
  let ?dfn = "[(''Close'', [NaN, NaN]), (''High'', [NaN, NaN]), (''Low'', [NaN, NaN]),
      (''Volume'', [NaN, NaN])]"
  let ?dfe = "[(''close'', []), (''high'', []), (''low'', []), (''volume'', [])] :: dataframe"
  let ?dfo = "[(''open'', [Val 1])]"
  let ?r1 = "\<lambda>c h l v n m oo tt d a. Inr \<lparr>major_buy = [NaN, Val 1], major_sell = [NaN, Val 2]\<rparr>"
  let ?r2 = "\<lambda>c h l v n m oo tt d a. Inr \<lparr>major_buy = [Val 1, NaN], major_sell = [NaN, Val 2]\<rparr>"
  let ?r3 = "\<lambda>c h l v n m oo tt d a. Inr \<lparr>major_buy = c, major_sell = c\<rparr>"
  let ?st1 = "\<lparr>current_signal = 1, processed_signal = Some 1\<rparr>"
  have 1: "compute_signal ?r1 sniper_test_config ?df = Inr 1"
    using sniper_signal_derivation[where df = ?df and run = ?r1 and cfg = sniper_test_config
        and close = "[Val 1, Val 1]" and high = "[Val 1, Val 1]" and low = "[Val 1, Val 1]"
        and volume = "[Val 1, Val 1]"
        and result = "\<lparr>major_buy = [NaN, Val 1], major_sell = [NaN, Val 2]\<rparr>"]
    by simp
  have 2: "compute_signal ?r2 sniper_test_config ?df = Inr (- 1)"
    using sniper_signal_derivation[where df = ?df and run = ?r2 and cfg = sniper_test_config
        and close = "[Val 1, Val 1]" and high = "[Val 1, Val 1]" and low = "[Val 1, Val 1]"
        and volume = "[Val 1, Val 1]"
        and result = "\<lparr>major_buy = [Val 1, NaN], major_sell = [NaN, Val 2]\<rparr>"]
    by simp
  have 3: "compute_signal ?r3 sniper_test_config ?dfn = Inr 0"
    using sniper_signal_derivation[where df = ?dfn and run = ?r3 and cfg = sniper_test_config
        and close = "[NaN, NaN]" and high = "[NaN, NaN]" and low = "[NaN, NaN]"
        and volume = "[NaN, NaN]"
        and result = "\<lparr>major_buy = [NaN, NaN], major_sell = [NaN, NaN]\<rparr>"]
    by simp
  have 4: "update_processed_data ?r1 sniper_test_config None initial_state =
             Inr \<lparr>current_signal = 0, processed_signal = Some 0\<rparr>"
    using sniper_signal_derivation[where run = ?r1 and cfg = sniper_test_config and st = initial_state]
    by (simp add: initial_state_def)
  have 5: "update_processed_data ?r1 sniper_test_config (Some ?dfe) initial_state =
             Inr \<lparr>current_signal = 0, processed_signal = Some 0\<rparr>"
    using sniper_signal_derivation[where df = ?dfe and run = ?r1 and cfg = sniper_test_config
        and st = initial_state]
    by (simp add: initial_state_def df_empty_def)
  have 6: "update_processed_data ?r2 sniper_test_config (Some ?df) initial_state =
             Inr \<lparr>current_signal = - 1, processed_signal = Some (- 1)\<rparr>"
    using sniper_signal_derivation[where df = ?df and run = ?r2 and cfg = sniper_test_config
        and st = initial_state] 2
    by (simp add: initial_state_def df_empty_def)
  have k: "compute_signal ?r1 sniper_test_config ?dfo = Inl (KeyError ''Close'')"
    by (simp add: compute_signal_def df_column_def)
  have 7: "update_processed_data ?r1 sniper_test_config (Some ?dfo) ?st1 =
             Inr \<lparr>current_signal = 0, processed_signal = Some 0\<rparr>"
    using sniper_signal_derivation[where df = ?dfo and run = ?r1 and cfg = sniper_test_config
        and st = ?st1] k
    by (simp add: df_empty_def)
  from 1 2 3 4 5 6 7 show ?thesis by blast
qed

text \<open>
  An indicator that would fire a major buy only for the Jurik code 8: with the default
  configured name "Jurik Moving Average" it is run with code 0 and the signal is 0, as
  with "Simple Moving Average".
\<close>

theorem ma_type_name_is_ignored_witness:
  "compute_signal (\<lambda>c h l v n m oo tt d a.
       Inr \<lparr>major_buy = (if m = PyInt 8 then [Val 1] else [NaN]), major_sell = [NaN]\<rparr>)
     sniper_test_config
     [(''close'', [Val 1]), (''high'', [Val 1]), (''low'', [Val 1]), (''volume'', [Val 1])] = Inr 0 \<and>
   compute_signal (\<lambda>c h l v n m oo tt d a.
       Inr \<lparr>major_buy = (if m = PyInt 8 then [Val 1] else [NaN]), major_sell = [NaN]\<rparr>)
     (sniper_test_config\<lparr>ma_type := ''Simple Moving Average''\<rparr>)
     [(''close'', [Val 1]), (''high'', [Val 1]), (''low'', [Val 1]), (''volume'', [Val 1])] = Inr 0"
proof -
  let ?run = "\<lambda>c h l v n m oo tt d a.
       Inr \<lparr>major_buy = (if m = PyInt 8 then [Val 1] else [NaN]), major_sell = [NaN]\<rparr>"
  let ?df = "[(''close'', [Val 1]), (''high'', [Val 1]), (''low'', [Val 1]), (''volume'', [Val 1])]"
  have r: "resolve_ma_type_idx (ma_type sniper_test_config) = PyInt 0"
    and e: "compute_signal ?run (sniper_test_config\<lparr>ma_type := ''Simple Moving Average''\<rparr>) ?df =
         compute_signal ?run sniper_test_config ?df"
    using ma_type_name_is_ignored[of "ma_type sniper_test_config" ?run sniper_test_config ?df]
      ma_type_name_is_ignored[of "''Simple Moving Average''" ?run sniper_test_config ?df]
    by blast+
  have "compute_signal ?run sniper_test_config ?df = Inr 0"
    by (simp add: compute_signal_def r df_column_def latest_present_eq)
  with e show ?thesis by simp
qed


section \<open>The Goertzel estimator\<close>

lemma efold_cong:
  assumes "\<And>x s. x \<in> set xs \<Longrightarrow> f x s = g x s"
  shows "efold f xs s = efold g xs s"
  using assms by (induction xs arbitrary: s) (auto split: sum.splits)

lemma efold_pure: "efold (\<lambda>x s. Inr (h x s)) xs s = Inr (fold h xs s)"
  by (induction xs arbitrary: s) simp_all

lemma efold_read:
  assumes "\<And>j. j < m \<Longrightarrow> 0 \<le> idx j \<and> idx j < int (length src)"
  shows "efold (\<lambda>j s. ebind (nb_getitem src (idx j)) (\<lambda>x. Inr (g x s))) [0..<m] s0 =
           Inr (fold g (map (\<lambda>j. src ! nat (idx j)) [0..<m]) s0)"
proof -
  have "efold (\<lambda>j s. ebind (nb_getitem src (idx j)) (\<lambda>x. Inr (g x s))) [0..<m] s0 =
          efold (\<lambda>j s. Inr (g (src ! nat (idx j)) s)) [0..<m] s0"
    using assms by (intro efold_cong) (simp add: nb_getitem_def nb_index_def)
  then show ?thesis by (simp add: efold_pure fold_map comp_def)
qed

lemma fold_add_sum: "fold (\<lambda>x s. s + f x) xs a = a + (\<Sum>x \<leftarrow> xs. f x)" for a :: real
  by (induction xs arbitrary: a) simp_all

lemma goertzel_triple:
  "snd (fold (\<lambda>val (q0, q1, q2). (c * q1 - q2 + val, c * q1 - q2 + val, q1)) xs (a, b1, b2)) =
     fold (\<lambda>x (q1, q2). (c * q1 - q2 + x, q1)) xs (b1, b2)" for c :: real
  by (induction xs arbitrary: a b1 b2) simp_all

lemma window_forward:
  assumes "i < length src" and "m \<le> i + 1"
  shows "map (\<lambda>j. src ! (i + 1 - m + j)) [0..<m] = take m (drop (i + 1 - m) src)"
  using assms by (intro nth_equalityI) auto

lemma window_backward:
  assumes "i < length src" and "m \<le> i + 1"
  shows "map (\<lambda>j. src ! (i - j)) [0..<m] = rev (take m (drop (i + 1 - m) src))"
proof (rule nth_equalityI)
  show "length (map (\<lambda>j. src ! (i - j)) [0..<m]) = length (rev (take m (drop (i + 1 - m) src)))"
    using assms by auto
next
  fix j assume "j < length (map (\<lambda>j. src ! (i - j)) [0..<m])"
  then have j: "j < m" by simp
  have len: "length (take m (drop (i + 1 - m) src)) = m" using assms by auto
  have "rev (take m (drop (i + 1 - m) src)) ! j = take m (drop (i + 1 - m) src) ! (m - Suc j)"
    using j len by (simp add: rev_nth)
  also have "\<dots> = src ! (i + 1 - m + (m - Suc j))" using j assms by simp
  also have "i + 1 - m + (m - Suc j) = i - j" using j assms by simp
  finally show "map (\<lambda>j. src ! (i - j)) [0..<m] ! j = rev (take m (drop (i + 1 - m) src)) ! j"
    using j by simp
qed


text \<open>
  One bar of the kernel whose window has at least two samples: the three inner loops
  read exactly the window of the bar, and the value is the Goertzel magnitude of the
  window, times its population standard deviation, over the scale factor, times the
  phase factor.
\<close>

lemma goertzel_bar_eq:
  assumes i: "i < length src" and cl: "cycle_len \<noteq> 0" and sf: "scale_factor \<noteq> 0"
    and big: "\<not> min (int i + 1) window_size < 2"
  shows "goertzel_bar src window_size cycle_len scale_factor i =
           Inr (goertzel_magnitude (window_of_bar src window_size i) cycle_len *
                population_std (window_of_bar src window_size i) / scale_factor *
                sin (2 * pi * real i / cycle_len))"
proof -
  let ?len = "min (int i + 1) window_size"
  define m where "m = nat ?len"
  have m: "2 \<le> m" "m \<le> i + 1" "?len = int m"
    using big by (auto simp: m_def)
  have rm: "real_of_int ?len = real m" "real m \<noteq> 0" using m by auto
  define w where "w = take m (drop (i + 1 - m) src)"
  have w: "window_of_bar src window_size i = w"
    by (simp add: window_of_bar_def m_def w_def Let_def)
  have lw: "length w = m" using m i by (auto simp: w_def)
  have idx1: "0 \<le> int i - ?len + 1 + int j \<and> int i - ?len + 1 + int j < int (length src)"
    "nat (int i - ?len + 1 + int j) = i + 1 - m + j" if "j < m" for j
    using that m i by auto
  have idx2: "0 \<le> int i - int j \<and> int i - int j < int (length src)"
    "nat (int i - int j) = i - j" if "j < m" for j
    using that m i by auto
  have "map (\<lambda>j. src ! nat (int i - ?len + 1 + int j)) [0..<m] =
        map (\<lambda>j. src ! (i + 1 - m + j)) [0..<m]"
    by (rule map_cong[OF refl]) (simp only: idx1(2) atLeastLessThan_iff set_upt)
  then have fw: "map (\<lambda>j. src ! nat (int i - ?len + 1 + int j)) [0..<m] = w"
    using window_forward[OF i m(2)] by (simp only: w_def)
  have "map (\<lambda>j. src ! nat (int i - int j)) [0..<m] = map (\<lambda>j. src ! (i - j)) [0..<m]"
    by (rule map_cong[OF refl]) (simp only: idx2(2) atLeastLessThan_iff set_upt)
  then have bw: "map (\<lambda>j. src ! nat (int i - int j)) [0..<m] = rev w"
    using window_backward[OF i m(2)] by (simp only: w_def)
  have L1: "efold (\<lambda>j (q0, q1, q2).
                     ebind (nb_getitem src (int i - ?len + 1 + int j)) (\<lambda>val.
                       Inr (c * q1 - q2 + val, c * q1 - q2 + val, q1)))
                    [0..<nat ?len] (0, 0, 0) =
            Inr (fold (\<lambda>val (q0, q1, q2). (c * q1 - q2 + val, c * q1 - q2 + val, q1)) w (0, 0, 0))"
    for c :: real
  proof -
    have "efold (\<lambda>j (q0, q1, q2).
                     ebind (nb_getitem src (int i - ?len + 1 + int j)) (\<lambda>val.
                       Inr (c * q1 - q2 + val, c * q1 - q2 + val, q1)))
                    [0..<m] (0, 0, 0) =
          efold (\<lambda>j s. ebind (nb_getitem src (int i - ?len + 1 + int j))
                   (\<lambda>x. Inr ((\<lambda>val (q0, q1, q2). (c * q1 - q2 + val, c * q1 - q2 + val, q1)) x s)))
                    [0..<m] (0, 0, 0)"
      by (intro efold_cong) (simp add: case_prod_unfold)
    also have "\<dots> = Inr (fold (\<lambda>val (q0, q1, q2). (c * q1 - q2 + val, c * q1 - q2 + val, q1))
                        (map (\<lambda>j. src ! nat (int i - ?len + 1 + int j)) [0..<m]) (0, 0, 0))"
      by (rule efold_read) (use idx1(1) in blast)
    finally show ?thesis unfolding m_def[symmetric] fw .
  qed
  have L2: "efold (\<lambda>j mean. ebind (nb_getitem src (int i - int j)) (\<lambda>x. Inr (mean + x)))
                    [0..<nat ?len] 0 = Inr (sum_list w)"
  proof -
    have "efold (\<lambda>j mean. ebind (nb_getitem src (int i - int j)) (\<lambda>x. Inr (mean + x))) [0..<m] 0 =
          Inr (fold (\<lambda>x mean. mean + x) (map (\<lambda>j. src ! nat (int i - int j)) [0..<m]) 0)"
      by (rule efold_read) (use idx2(1) in blast)
    then show ?thesis
      unfolding bw m_def[symmetric] using fold_add_sum[of "\<lambda>x. x" "rev w" 0] by (simp add: rev_map[symmetric])
  qed
  have L3: "efold (\<lambda>j var. ebind (nb_getitem src (int i - int j)) (\<lambda>x. Inr (var + (x - mean) ^ 2)))
                    [0..<nat ?len] 0 = Inr (\<Sum>x \<leftarrow> w. (x - mean) ^ 2)" for mean :: real
  proof -
    have "efold (\<lambda>j var. ebind (nb_getitem src (int i - int j)) (\<lambda>x. Inr (var + (x - mean) ^ 2))) [0..<m] 0 =
          Inr (fold (\<lambda>x var. var + (x - mean) ^ 2) (map (\<lambda>j. src ! nat (int i - int j)) [0..<m]) 0)"
      by (rule efold_read) (use idx2(1) in blast)
    then show ?thesis
      unfolding bw m_def[symmetric] using fold_add_sum[of "\<lambda>x. (x - mean) ^ 2" "rev w" 0]
      by (simp add: rev_map[symmetric])
  qed
  have om: "2 * pi * (real m / cycle_len) / real m = 2 * pi / cycle_len"
    using rm(2) by simp
  obtain q0 q1 q2 where q: "fold (\<lambda>val (q0, q1, q2). (2 * cos (2 * pi / cycle_len) * q1 - q2 + val,
                 2 * cos (2 * pi / cycle_len) * q1 - q2 + val, q1)) w (0, 0, 0) = (q0, q1, q2)"
    using prod_cases3 by blast
  have rec: "goertzel_recurrence (2 * cos (2 * pi / cycle_len)) w = (q1, q2)"
    using goertzel_triple[of "2 * cos (2 * pi / cycle_len)" w 0 0 0] q
    by (simp add: goertzel_recurrence_def)
  have r1: "rdiv x cycle_len = Inr (x / cycle_len)" for x
    using cl by (simp add: rdiv_def)
  have r2: "rdiv x (real m) = Inr (x / real m)" for x
    using rm(2) by (simp add: rdiv_def)
  have r3: "rdiv x scale_factor = Inr (x / scale_factor)" for x
    using sf by (simp add: rdiv_def)
  let ?c = "cos (2 * pi / cycle_len)"
  let ?s = "sin (2 * pi / cycle_len)"
  let ?re = "(?c * q1 - q2) / real m * 2"
  let ?im = "?s * q1 / real m * 2"
  have code: "goertzel_bar src window_size cycle_len scale_factor i =
      Inr (sqrt (?re * ?re + ?im * ?im) * sqrt ((\<Sum>x \<leftarrow> w. (x - sum_list w / real m) ^ 2) / real m)
           / scale_factor * sin (pi * 2 * real i / cycle_len))"
    by (simp only: goertzel_bar_def Let_def big if_False rm(1) r1 r2 r3 ebind_Inr om L1 L2 L3 q
        prod.case)
  have spec: "goertzel_magnitude w cycle_len = sqrt (?re * ?re + ?im * ?im)"
    "population_std w = sqrt ((\<Sum>x \<leftarrow> w. (x - sum_list w / real m) ^ 2) / real m)"
    by (simp_all only: goertzel_magnitude_def Let_def rec prod.case population_std_def mean_of_def lw)
  have ph: "pi * 2 * real i / cycle_len = 2 * pi * real i / cycle_len" by simp
  show ?thesis
    by (simp only: code w spec ph)
qed


lemma window_of_bar_length:
  assumes "i < length src"
  shows "length (window_of_bar src window_size i) = nat (min (int i + 1) window_size)"
  using assms by (auto simp: window_of_bar_def Let_def)

text \<open>
  Claim C8, as amended. For a non-zero cycle period and a non-zero scale factor, the
  kernel returns one value per bar: at bar \<open>i\<close> the window is the last
  \<open>min(i+1, window_size)\<close> samples up to \<open>i\<close>; if that length is below 2 the value is 0,
  and otherwise it is the magnitude of the Goertzel DFT of the window at the cycle
  frequency, multiplied by the population standard deviation of the window (which divides
  by the window length, not by the length minus one), divided by \<open>scale_factor\<close>, and
  multiplied by \<open>sin(2*pi*i/period)\<close>.
\<close>

theorem goertzel_kernel_formula:
  assumes "cycle_len \<noteq> 0" and "scale_factor \<noteq> 0"
  shows "goertzel_1d_nb src window_size cycle_len scale_factor =
           Inr (map (\<lambda>i. if min (int i + 1) window_size < 2 then 0
                          else goertzel_magnitude (window_of_bar src window_size i) cycle_len *
                               population_std (window_of_bar src window_size i) / scale_factor *
                               sin (2 * pi * real i / cycle_len)) [0..<length src]) \<and>
         (\<forall>i<length src. length (window_of_bar src window_size i) = nat (min (int i + 1) window_size))"
proof
  let ?g = "\<lambda>i. if min (int i + 1) window_size < 2 then 0
                          else goertzel_magnitude (window_of_bar src window_size i) cycle_len *
                               population_std (window_of_bar src window_size i) / scale_factor *
                               sin (2 * pi * real i / cycle_len)"
  have bar: "goertzel_bar src window_size cycle_len scale_factor i = Inr (?g i)"
    if "i < length src" for i
  proof (cases "min (int i + 1) window_size < 2")
    case True
    then show ?thesis by (simp add: goertzel_bar_def)
  next
    case False
    from goertzel_bar_eq[OF that assms False] False show ?thesis by simp
  qed
  have "efold (\<lambda>i out. ebind (goertzel_bar src window_size cycle_len scale_factor i)
                            (\<lambda>v. nb_setitem out (int i) v))
           [0..<length src] (replicate (length src) 0) = Inr (map ?g [0..<length src])"
    by (rule efold_fill_all) (simp_all add: bar nb_setitem_nat)
  then show "goertzel_1d_nb src window_size cycle_len scale_factor = Inr (map ?g [0..<length src])"
    by (simp add: goertzel_1d_nb_def Let_def)
next
  show "\<forall>i<length src. length (window_of_bar src window_size i) = nat (min (int i + 1) window_size)"
    by (simp add: window_of_bar_length)
qed

lemma sqrt2_facts: "sqrt 2 \<noteq> 1" "sqrt 2 \<noteq> 2" "sqrt 2 \<noteq> 0"
  using real_sqrt_eq_iff[of 2 1] real_sqrt_eq_iff[of 2 4] real_sqrt_eq_iff[of 2 0]
  by simp_all

text \<open>
  The claim as stated names the sample standard deviation. For the series \<open>[0, 2]\<close>,
  window size 2, period 4 and scale factor 1, the kernel returns 2 at bar 1: the
  magnitude is 2 and the population standard deviation of the window is 1, while its
  sample standard deviation is \<open>sqrt 2\<close>. Multiplying the magnitude by the sample
  standard deviation, or dividing by it, gives another value than the kernel's.
\<close>

theorem goertzel_sample_std_counterexample:
  "goertzel_1d_nb [0, 2] 2 4 1 = Inr [0, 2] \<and>
   window_of_bar [0, 2] 2 1 = [0, 2] \<and>
   goertzel_magnitude [0, 2] 4 = 2 \<and> population_std [0, 2] = 1 \<and> sample_std [0, 2] = sqrt 2 \<and>
   goertzel_magnitude [0, 2] 4 * sample_std [0, 2] / 1 * sin (2 * pi * 1 / 4) \<noteq> 2 \<and>
   goertzel_magnitude [0, 2] 4 / sample_std [0, 2] / 1 * sin (2 * pi * 1 / 4) \<noteq> 2"
proof -
  have code: "goertzel_1d_nb [0, 2] 2 4 1 = Inr [0, 2]"
    by (simp add: goertzel_1d_nb_def goertzel_bar_def rdiv_def nb_getitem_def nb_setitem_def
        nb_index_def upt_rec Let_def eval_nat_numeral)
  have w: "window_of_bar [0, 2] 2 1 = [0, 2]"
    by (simp add: window_of_bar_def)
  have mag: "goertzel_magnitude [0, 2] 4 = 2"
    by (simp add: goertzel_magnitude_def goertzel_recurrence_def Let_def)
  have ps: "population_std [0, 2] = 1" and ss: "sample_std [0, 2] = sqrt 2"
    by (simp_all add: population_std_def sample_std_def mean_of_def)
  have ph: "sin (2 * pi * 1 / 4) = 1" by simp
  have "2 * sqrt 2 \<noteq> (2::real)" "2 / sqrt 2 \<noteq> (2::real)"
    using sqrt2_facts by (auto simp: field_simps)
  then show ?thesis using code w mag ps ss ph by simp
qed

text \<open>The series \<open>[1, 3]\<close> with window size 2, period 4 and scale factor 2.\<close>

theorem goertzel_kernel_formula_witness:
  "goertzel_1d_nb [1, 3] 2 4 2 = Inr [0, sqrt 10 / 2]"
proof -
  have w: "window_of_bar [1, 3] 2 (Suc 0) = [1, 3]"
    by (simp add: window_of_bar_def)
  have mag: "goertzel_magnitude [1, 3] 4 = sqrt 10"
    by (simp add: goertzel_magnitude_def goertzel_recurrence_def Let_def)
  have ps: "population_std [1, 3] = 1"
    by (simp add: population_std_def mean_of_def)
  have "(4::real) \<noteq> 0" "(2::real) \<noteq> 0" by simp_all
  from goertzel_kernel_formula[OF this, of "[1, 3]" 2]
  show ?thesis by (simp add: upt_rec w mag ps)
qed

end
